theory Spec2Isabelle
  imports Main "HOL-Library.Word"
begin

section \<open>JavaScript strings\<close>

text \<open>
  A JavaScript string is a sequence of UTF-16 code units: \<open>length\<close> is what
  \<^verbatim>\<open>.length\<close> counts and \<open>take\<close>/\<open>drop\<close> are what \<^verbatim>\<open>.slice\<close> cuts.
  ASCII literals of the source are written \<open>ascii ''...''\<close>; the Cyrillic literals are
  given by their code units.
\<close>

type_synonym jsstring = "16 word list"

definition ascii :: "string \<Rightarrow> jsstring" where
  "ascii s = map (\<lambda>c. of_nat (of_char c)) s"

text \<open>Decimal rendering of an integer, as \<^verbatim>\<open>Number.prototype.toString\<close> and template
  literals give it for the integers the program renders (hours and period bounds).\<close>

fun digits :: "nat \<Rightarrow> jsstring" where
  "digits n = (if n < 10 then [48 + of_nat n] else digits (n div 10) @ [48 + of_nat (n mod 10)])"

declare digits.simps [simp del]

definition int_to_string :: "int \<Rightarrow> jsstring" where
  "int_to_string i = (if i < 0 then ascii ''-'' @ digits (nat (- i)) else digits (nat i))"

text \<open>\<^verbatim>\<open>Array.prototype.join\<close> on an array of strings.\<close>

fun join :: "jsstring \<Rightarrow> jsstring list \<Rightarrow> jsstring" where
  "join sep [] = []"
| "join sep [x] = x"
| "join sep (x # y # rest) = x @ sep @ join sep (y # rest)"

text \<open>\<^verbatim>\<open>s.replace(pat, rep)\<close> with a string pattern: the first occurrence of \<open>pat\<close>
  in \<open>s\<close>, wherever it stands, is replaced; \<open>s\<close> is returned as it is when \<open>pat\<close> does
  not occur. (The replacement \<open>''\<close> of the source has no \<^verbatim>\<open>$\<close> pattern.)\<close>

fun is_prefix :: "jsstring \<Rightarrow> jsstring \<Rightarrow> bool" where
  "is_prefix [] s = True"
| "is_prefix (p # ps) [] = False"
| "is_prefix (p # ps) (c # cs) = (p = c \<and> is_prefix ps cs)"

fun replace_first :: "jsstring \<Rightarrow> jsstring \<Rightarrow> jsstring \<Rightarrow> jsstring" where
  "replace_first pat rep [] = (if pat = [] then rep else [])"
| "replace_first pat rep (c # cs) =
     (if is_prefix pat (c # cs) then rep @ drop (length pat) (c # cs)
      else c # replace_first pat rep cs)"

text \<open>\<^verbatim>\<open>s.includes(pat)\<close>: \<open>pat\<close> occurs in \<open>s\<close> as a substring.\<close>

fun str_includes :: "jsstring \<Rightarrow> jsstring \<Rightarrow> bool" where
  "str_includes pat [] = (pat = [])"
| "str_includes pat (c # cs) = (is_prefix pat (c # cs) \<or> str_includes pat cs)"

section \<open>JavaScript values\<close>

text \<open>
  The values the program handles are those \<^verbatim>\<open>JSON.parse\<close> builds, together with the
  objects \<open>filterGPVKeys\<close> builds from them. An object is its prototype and its own
  enumerable properties, listed in the order in which JavaScript enumerates them
  (\<^verbatim>\<open>for ... in\<close>, \<^verbatim>\<open>Object.entries\<close>): array-index keys first, in ascending numeric
  order, then the other keys in the order of their creation. The prototype \<open>None\<close> is
  the built-in \<^verbatim>\<open>Object.prototype\<close>, which every object literal and every object of
  \<^verbatim>\<open>JSON.parse\<close> has; \<open>Some p\<close> is a prototype that was set to \<open>p\<close> (an object, or
  \<open>JNull\<close>). Numbers are kept abstract (\<open>'n\<close>): the program does no arithmetic on the
  numbers of the data.
\<close>

datatype 'n js =
    JUndefined
  | JNull
  | JBool bool
  | JNum 'n
  | JStr jsstring
  | JArr "'n js list"
  | JObj "'n js option" "(jsstring \<times> 'n js) list"

datatype error =
    HttpError nat
  | NetworkError
  | TypeError
  | SyntaxError
  | EvalError

definition is_digit :: "16 word \<Rightarrow> bool" where
  "is_digit c = (48 \<le> c \<and> c \<le> 57)"

definition decimal_value :: "jsstring \<Rightarrow> nat" where
  "decimal_value s = foldl (\<lambda>acc c. 10 * acc + (unat c - 48)) 0 s"

text \<open>An array index: the canonical decimal string of an integer from 0 to \<open>2^32 - 2\<close>.\<close>

definition array_index :: "jsstring \<Rightarrow> nat option" where
  "array_index k =
     (if k \<noteq> [] \<and> list_all is_digit k \<and> (hd k \<noteq> 48 \<or> length k = 1)
         \<and> length k \<le> 10 \<and> decimal_value k \<le> 4294967294
      then Some (decimal_value k) else None)"

fun nullish :: "'n js \<Rightarrow> bool" where
  "nullish JUndefined = True"
| "nullish JNull = True"
| "nullish _ = False"

text \<open>The own enumerable property \<open>k\<close> of a value (for a string, its code units; for an
  array, its elements).\<close>

fun own_property :: "'n js \<Rightarrow> jsstring \<Rightarrow> 'n js option" where
  "own_property (JObj p kvs) k = map_of kvs k"
| "own_property (JArr xs) k =
     (case array_index k of
        Some i \<Rightarrow> if i < length xs then Some (xs ! i) else None
      | None \<Rightarrow> None)"
| "own_property (JStr s) k =
     (case array_index k of
        Some i \<Rightarrow> if i < length s then Some (JStr [s ! i]) else None
      | None \<Rightarrow> None)"
| "own_property _ k = None"

text \<open>Property lookup along the prototype chain. The built-in prototypes hold no
  enumerable property and none named \<^verbatim>\<open>data\<close>, \<^verbatim>\<open>status\<close> or by a decimal numeral,
  so for the names this program reads (these, and the names it got by enumerating the
  value) a lookup that reaches a built-in prototype finds nothing.\<close>

fun get_property :: "'n js \<Rightarrow> jsstring \<Rightarrow> 'n js option" where
  "get_property (JObj None kvs) k = map_of kvs k"
| "get_property (JObj (Some q) kvs) k =
     (case map_of kvs k of Some v \<Rightarrow> Some v | None \<Rightarrow> get_property q k)"
| "get_property v k = own_property v k"

text \<open>\<open>v[k]\<close> where \<open>v\<close> is known not to be \<^verbatim>\<open>null\<close> or \<^verbatim>\<open>undefined\<close>.\<close>

definition property_value :: "'n js \<Rightarrow> jsstring \<Rightarrow> 'n js" where
  "property_value v k = (case get_property v k of Some x \<Rightarrow> x | None \<Rightarrow> JUndefined)"

text \<open>\<open>v[k]\<close>: reading a property of \<^verbatim>\<open>null\<close> or \<^verbatim>\<open>undefined\<close> throws a TypeError.\<close>

definition js_get :: "'n js \<Rightarrow> jsstring \<Rightarrow> error + 'n js" where
  "js_get v k = (if nullish v then Inl TypeError else Inr (property_value v k))"

definition index_keys :: "nat \<Rightarrow> jsstring list" where
  "index_keys n = map digits [0..<n]"

text \<open>\<^verbatim>\<open>Object.entries(v)\<close>: the own enumerable properties; a TypeError on \<^verbatim>\<open>null\<close> and
  \<^verbatim>\<open>undefined\<close>.\<close>

fun Object_entries :: "'n js \<Rightarrow> error + (jsstring \<times> 'n js) list" where
  "Object_entries JUndefined = Inl TypeError"
| "Object_entries JNull = Inl TypeError"
| "Object_entries (JObj p kvs) = Inr kvs"
| "Object_entries (JArr xs) = Inr (zip (index_keys (length xs)) xs)"
| "Object_entries (JStr s) = Inr (zip (index_keys (length s)) (map (\<lambda>c. JStr [c]) s))"
| "Object_entries _ = Inr []"

section \<open>The host\<close>

text \<open>
  What the program takes from its runtime and this development does not model:
  the conversion of a JSON number literal to a Number and the truth value of a Number;
  \<^verbatim>\<open>String(v)\<close> as a template literal applies it; the evaluation of source text by
  \<^verbatim>\<open>Function(...)()\<close>; and \<^verbatim>\<open>new Date(parseInt(ts) * 1000).toLocaleDateString('ru-RU')\<close>,
  which depends on the time zone of the process.
\<close>

record 'n host =
  number_of :: "jsstring \<Rightarrow> 'n"
  number_truthy :: "'n \<Rightarrow> bool"
  to_text :: "'n js \<Rightarrow> error + jsstring"
  run_Function :: "jsstring \<Rightarrow> error + 'n js"
  locale_date :: "jsstring \<Rightarrow> jsstring"

section \<open>parseLightSchedule: the interval compressor\<close>

record period =
  p_start :: int
  p_end :: int

text \<open>The loop \<^verbatim>\<open>for (let hour = 1; hour <= 24; hour++)\<close> with its two variables
  \<open>currentPeriod\<close> and \<open>noLightPeriods\<close>.\<close>

function hours_loop ::
  "'n js \<Rightarrow> int \<Rightarrow> period option \<Rightarrow> period list \<Rightarrow> error + (period option \<times> period list)" where
  "hours_loop timeSlots hour currentPeriod noLightPeriods =
     (if hour \<le> 24 then
        (case js_get timeSlots (int_to_string hour) of
           Inl e \<Rightarrow> Inl e
         | Inr status \<Rightarrow>
             if status = JStr (ascii ''no'') then
               (case currentPeriod of
                  None \<Rightarrow>
                    hours_loop timeSlots (hour + 1)
                      (Some \<lparr>p_start = hour - 1, p_end = hour\<rparr>) noLightPeriods
                | Some p \<Rightarrow>
                    hours_loop timeSlots (hour + 1) (Some (p\<lparr>p_end := hour\<rparr>)) noLightPeriods)
             else
               (case currentPeriod of
                  Some p \<Rightarrow> hours_loop timeSlots (hour + 1) None (noLightPeriods @ [p])
                | None \<Rightarrow> hours_loop timeSlots (hour + 1) None noLightPeriods))
      else Inr (currentPeriod, noLightPeriods))"
  by pat_completeness auto
termination
  by (relation "measure (\<lambda>(t, h, c, ps). nat (25 - h))") auto

declare hours_loop.simps [simp del]

text \<open>The periods of one feeder: the loop, then the period still open is closed.\<close>

definition noLightPeriods :: "'n js \<Rightarrow> error + period list" where
  "noLightPeriods timeSlots =
     (case hours_loop timeSlots 1 None [] of
        Inl e \<Rightarrow> Inl e
      | Inr (currentPeriod, ps) \<Rightarrow>
          Inr (case currentPeriod of Some p \<Rightarrow> ps @ [p] | None \<Rightarrow> ps))"

definition period_text :: "period \<Rightarrow> jsstring" where
  "period_text p = int_to_string (p_start p) @ ascii '' - '' @ int_to_string (p_end p)"

definition periodTexts :: "period list \<Rightarrow> jsstring" where
  "periodTexts ps = join (ascii '', '') (map period_text ps)"

definition line_date :: jsstring where
  "line_date = [0x414, 0x430, 0x442, 0x430, 0x20]"

definition line_schedule :: jsstring where
  "line_schedule = [0x2C, 0x20, 0x433, 0x440, 0x430, 0x444, 0x438, 0x43A, 0x20]"

definition line_periods :: jsstring where
  "line_periods = [0x2C, 0x20, 0x441, 0x432, 0x435, 0x442, 0x430, 0x20, 0x43D, 0x435, 0x20,
     0x431, 0x443, 0x434, 0x435, 0x442, 0x20, 0x432, 0x20, 0x442, 0x430, 0x43A, 0x438, 0x435,
     0x20, 0x43F, 0x440, 0x43E, 0x43C, 0x435, 0x436, 0x443, 0x442, 0x43A, 0x438, 0x3A, 0x20]"

definition feederSuffix :: "jsstring \<Rightarrow> jsstring" where
  "feederSuffix scheduleName = replace_first (ascii ''GPV'') [] scheduleName"

definition schedule_line :: "jsstring \<Rightarrow> jsstring \<Rightarrow> period list \<Rightarrow> jsstring" where
  "schedule_line formattedDate scheduleName ps =
     line_date @ formattedDate @ line_schedule @ feederSuffix scheduleName
       @ line_periods @ periodTexts ps"

fun schedules_loop ::
  "jsstring \<Rightarrow> (jsstring \<times> 'n js) list \<Rightarrow> jsstring list \<Rightarrow> error + jsstring list" where
  "schedules_loop formattedDate [] results = Inr results"
| "schedules_loop formattedDate ((scheduleName, timeSlots) # rest) results =
     (case noLightPeriods timeSlots of
        Inl e \<Rightarrow> Inl e
      | Inr ps \<Rightarrow>
          schedules_loop formattedDate rest
            (if length ps > 0 then results @ [schedule_line formattedDate scheduleName ps]
             else results))"

fun dates_loop ::
  "'n host \<Rightarrow> (jsstring \<times> 'n js) list \<Rightarrow> jsstring list \<Rightarrow> error + jsstring list" where
  "dates_loop H [] results = Inr results"
| "dates_loop H ((timestamp, schedules) # rest) results =
     (case Object_entries schedules of
        Inl e \<Rightarrow> Inl e
      | Inr entries \<Rightarrow>
          (case schedules_loop (locale_date H timestamp) entries results of
             Inl e \<Rightarrow> Inl e
           | Inr results' \<Rightarrow> dates_loop H rest results'))"

definition parseLightSchedule :: "'n host \<Rightarrow> 'n js \<Rightarrow> error + jsstring" where
  "parseLightSchedule H data =
     (case Object_entries data of
        Inl e \<Rightarrow> Inl e
      | Inr entries \<Rightarrow>
          (case dates_loop H entries [] of
             Inl e \<Rightarrow> Inl e
           | Inr results \<Rightarrow> Inr (join [0x0A] results)))"

section \<open>filterGPVKeys: the feeder filter\<close>

text \<open>The keys \<^verbatim>\<open>for (const k in v)\<close> visits: the own enumerable properties, then those
  of the prototype chain that no nearer object has. Nothing is visited for \<^verbatim>\<open>null\<close>,
  \<^verbatim>\<open>undefined\<close>, a number or a boolean.\<close>

fun for_in_keys :: "'n js \<Rightarrow> jsstring list" where
  "for_in_keys (JObj None kvs) = map fst kvs"
| "for_in_keys (JObj (Some q) kvs) =
     map fst kvs @ filter (\<lambda>k. map_of kvs k = None) (for_in_keys q)"
| "for_in_keys (JArr xs) = index_keys (length xs)"
| "for_in_keys (JStr s) = index_keys (length s)"
| "for_in_keys _ = []"

text \<open>Whether the prototype chain of a value ends in the built-in \<^verbatim>\<open>Object.prototype\<close>
  (it does not when a prototype was set to \<^verbatim>\<open>null\<close>).\<close>

fun inherits_Object_prototype :: "'n js \<Rightarrow> bool" where
  "inherits_Object_prototype (JObj None kvs) = True"
| "inherits_Object_prototype (JObj (Some q) kvs) = inherits_Object_prototype q"
| "inherits_Object_prototype JNull = False"
| "inherits_Object_prototype JUndefined = False"
| "inherits_Object_prototype _ = True"

text \<open>The call \<^verbatim>\<open>obj.hasOwnProperty(k)\<close>. The method is looked up like any property: a
  property of that name in the data (never a function) or a chain that does not reach
  \<^verbatim>\<open>Object.prototype\<close> makes the call a TypeError.\<close>

definition call_hasOwnProperty :: "'n js \<Rightarrow> jsstring \<Rightarrow> error + bool" where
  "call_hasOwnProperty obj k =
     (case get_property obj (ascii ''hasOwnProperty'') of
        Some f \<Rightarrow> Inl TypeError
      | None \<Rightarrow>
          if inherits_Object_prototype obj then Inr (own_property obj k \<noteq> None)
          else Inl TypeError)"

text \<open>A new own property takes its place in the enumeration order: an array index
  among the array indices, in ascending order; any other key at the end.\<close>

fun insert_index :: "nat \<Rightarrow> jsstring \<Rightarrow> 'v \<Rightarrow> (jsstring \<times> 'v) list \<Rightarrow> (jsstring \<times> 'v) list" where
  "insert_index n k v [] = [(k, v)]"
| "insert_index n k v ((k', v') # rest) =
     (case array_index k' of
        Some m \<Rightarrow>
          if m < n then (k', v') # insert_index n k v rest else (k, v) # (k', v') # rest
      | None \<Rightarrow> (k, v) # (k', v') # rest)"

definition define_own :: "jsstring \<Rightarrow> 'v \<Rightarrow> (jsstring \<times> 'v) list \<Rightarrow> (jsstring \<times> 'v) list" where
  "define_own k v kvs =
     (case array_index k of Some n \<Rightarrow> insert_index n k v kvs | None \<Rightarrow> kvs @ [(k, v)])"

text \<open>The value of an own property is replaced where the property stands.\<close>

fun overwrite :: "jsstring \<Rightarrow> 'v \<Rightarrow> (jsstring \<times> 'v) list \<Rightarrow> (jsstring \<times> 'v) list" where
  "overwrite k v [] = []"
| "overwrite k v ((k', v') # rest) =
     (if k' = k then (k, v) # rest else (k', v') # overwrite k v rest)"

text \<open>An object under construction: its prototype and its own properties.\<close>

type_synonym 'n obj = "'n js option \<times> (jsstring \<times> 'n js) list"

definition empty_object :: "'n obj" where
  "empty_object = (None, [])"

definition object_value :: "'n obj \<Rightarrow> 'n js" where
  "object_value r = JObj (fst r) (snd r)"

definition proto_key :: jsstring where
  "proto_key = ascii ''__proto__''"

text \<open>Whether a lookup of \<^verbatim>\<open>__proto__\<close> that starts at the prototype \<open>p\<close> ends at the
  accessor of \<^verbatim>\<open>Object.prototype\<close>: no object on the way has an own property of that
  name, and the chain does not end in \<^verbatim>\<open>null\<close>.\<close>

fun proto_accessor_inherited :: "'n js option \<Rightarrow> bool" where
  "proto_accessor_inherited None = True"
| "proto_accessor_inherited (Some (JObj q kvs)) =
     (map_of kvs proto_key = None \<and> proto_accessor_inherited q)"
| "proto_accessor_inherited (Some (JArr xs)) = True"
| "proto_accessor_inherited (Some v) = False"

fun is_object_or_null :: "'n js \<Rightarrow> bool" where
  "is_object_or_null (JObj p kvs) = True"
| "is_object_or_null (JArr xs) = True"
| "is_object_or_null JNull = True"
| "is_object_or_null _ = False"

text \<open>The assignment \<^verbatim>\<open>r[k] = v\<close> on an ordinary object \<open>r\<close>. An own property is
  overwritten where it stands. Otherwise the name \<^verbatim>\<open>__proto__\<close> reaches the accessor
  of \<^verbatim>\<open>Object.prototype\<close>, whose setter replaces the prototype of \<open>r\<close> when \<open>v\<close> is an
  object or \<^verbatim>\<open>null\<close> and does nothing for any other \<open>v\<close>: no own property is created.
  Every other name becomes a new own property.\<close>

definition obj_set :: "'n obj \<Rightarrow> jsstring \<Rightarrow> 'n js \<Rightarrow> 'n obj" where
  "obj_set r k v =
     (if map_of (snd r) k \<noteq> None then (fst r, overwrite k v (snd r))
      else if k = proto_key \<and> proto_accessor_inherited (fst r) then
        (if is_object_or_null v then (Some v, snd r) else r)
      else (fst r, define_own k v (snd r)))"

text \<open>The inner loop \<^verbatim>\<open>for (const gpvKey in obj[dateKey])\<close>, on the object that
  \<^verbatim>\<open>result[dateKey] = {}\<close> created: \<open>feeders\<close> is \<^verbatim>\<open>obj[dateKey]\<close>, \<open>r\<close> is
  \<^verbatim>\<open>result[dateKey]\<close>.\<close>

fun gpv_loop :: "'n js \<Rightarrow> jsstring list \<Rightarrow> jsstring list \<Rightarrow> 'n obj \<Rightarrow> 'n obj" where
  "gpv_loop feeders keysToKeep [] r = r"
| "gpv_loop feeders keysToKeep (gpvKey # rest) r =
     gpv_loop feeders keysToKeep rest
       (if gpvKey \<in> set keysToKeep then obj_set r gpvKey (property_value feeders gpvKey)
        else r)"

text \<open>The outer loop \<^verbatim>\<open>for (const dateKey in obj)\<close>. The object assigned to
  \<^verbatim>\<open>result[dateKey]\<close> is filled in place by the inner loop, so \<open>result\<close> ends with the
  filled object where the assignment put the empty one.\<close>

fun date_loop :: "'n js \<Rightarrow> jsstring list \<Rightarrow> jsstring list \<Rightarrow> 'n obj \<Rightarrow> error + 'n obj" where
  "date_loop obj keysToKeep [] result = Inr result"
| "date_loop obj keysToKeep (dateKey # rest) result =
     (case call_hasOwnProperty obj dateKey of
        Inl e \<Rightarrow> Inl e
      | Inr own \<Rightarrow>
          if own then
            date_loop obj keysToKeep rest
              (obj_set result dateKey
                 (object_value
                    (gpv_loop (property_value obj dateKey) keysToKeep
                       (for_in_keys (property_value obj dateKey)) empty_object)))
          else date_loop obj keysToKeep rest result)"

definition filterGPVKeys :: "'n js \<Rightarrow> jsstring list \<Rightarrow> error + 'n js" where
  "filterGPVKeys obj keysToKeep =
     (case date_loop obj keysToKeep (for_in_keys obj) empty_object of
        Inl e \<Rightarrow> Inl e
      | Inr result \<Rightarrow> Inr (object_value result))"

section \<open>fetchShutdowns: the schedule extractor\<close>

subsection \<open>The regular expressions\<close>

text \<open>The classes \<^verbatim>\<open>\s\<close> and \<^verbatim>\<open>[a-zA-Z0-9_]\<close> of a regular expression without flags.\<close>

definition is_space :: "16 word \<Rightarrow> bool" where
  "is_space c =
     (c = 0x09 \<or> c = 0x0A \<or> c = 0x0B \<or> c = 0x0C \<or> c = 0x0D \<or> c = 0x20 \<or> c = 0xA0
      \<or> c = 0x1680 \<or> (0x2000 \<le> c \<and> c \<le> 0x200A) \<or> c = 0x2028 \<or> c = 0x2029
      \<or> c = 0x202F \<or> c = 0x205F \<or> c = 0x3000 \<or> c = 0xFEFF)"

definition is_word :: "16 word \<Rightarrow> bool" where
  "is_word c =
     ((0x61 \<le> c \<and> c \<le> 0x7A) \<or> (0x41 \<le> c \<and> c \<le> 0x5A) \<or> (0x30 \<le> c \<and> c \<le> 0x39)
      \<or> c = 0x5F)"

definition marker :: jsstring where
  "marker = ascii ''DisconSchedule.fact''"

text \<open>The lookahead \<^verbatim>\<open>(?=\s*DisconSchedule\.|\s*$)\<close>: after the white space, the next
  statement of the namespace or the end of the text.\<close>

definition lookahead :: "jsstring \<Rightarrow> bool" where
  "lookahead rest =
     (dropWhile is_space rest = []
      \<or> is_prefix (ascii ''DisconSchedule.'') (dropWhile is_space rest))"

text \<open>The lazy \<^verbatim>\<open>[\s\S]*?\}\<close>: the text up to the first closing brace at which the
  lookahead holds.\<close>

fun lazy_to_brace :: "jsstring \<Rightarrow> jsstring option" where
  "lazy_to_brace [] = None"
| "lazy_to_brace (c # cs) =
     (if c = 0x7D \<and> lookahead cs then Some [c]
      else map_option ((#) c) (lazy_to_brace cs))"

text \<open>A match of the whole expression
  \<^verbatim>\<open>/DisconSchedule\.fact\s*=\s*(\{[\s\S]*?\})(?=\s*DisconSchedule\.|\s*$)/\<close>
  that starts at the head of the text: the result is the group \<^verbatim>\<open>m[1]\<close>.\<close>

definition match_here :: "jsstring \<Rightarrow> jsstring option" where
  "match_here txt =
     (if is_prefix marker txt then
        (case dropWhile is_space (drop (length marker) txt) of
           [] \<Rightarrow> None
         | eq # r \<Rightarrow>
             if eq = 0x3D then
               (case dropWhile is_space r of
                  [] \<Rightarrow> None
                | brace # body \<Rightarrow>
                    if brace = 0x7B then map_option ((#) brace) (lazy_to_brace body)
                    else None)
             else None)
      else None)"

text \<open>\<^verbatim>\<open>txt.match(regex)\<close>: the match at the leftmost position that has one.\<close>

fun regex_match :: "jsstring \<Rightarrow> jsstring option" where
  "regex_match [] = match_here []"
| "regex_match (c # cs) =
     (case match_here (c # cs) of Some m \<Rightarrow> Some m | None \<Rightarrow> regex_match cs)"

text \<open>\<^verbatim>\<open>objStr.replace(/'/g, '"')\<close>.\<close>

definition double_quotes :: "jsstring \<Rightarrow> jsstring" where
  "double_quotes s = map (\<lambda>c. if c = 0x27 then 0x22 else c) s"

text \<open>\<^verbatim>\<open>objStr.replace(/(\b[a-zA-Z0-9_]+)\s*:/g, '"$1":')\<close>: a run of word characters
  that starts at a word boundary and is followed, after white space, by a colon is
  put in double quotes, and the white space is dropped. \<open>prev\<close> tells whether the
  character before the position is a word character.\<close>

function quote_keys :: "bool \<Rightarrow> jsstring \<Rightarrow> jsstring" where
  "quote_keys prev [] = []"
| "quote_keys prev (c # cs) =
     (if \<not> prev \<and> is_word c then
        (case dropWhile is_space (dropWhile is_word cs) of
           [] \<Rightarrow> c # quote_keys True cs
         | colon # rest \<Rightarrow>
             if colon = 0x3A then
               [0x22] @ (c # takeWhile is_word cs) @ [0x22, 0x3A] @ quote_keys False rest
             else c # quote_keys True cs)
      else c # quote_keys (is_word c) cs)"
  by pat_completeness auto

termination quote_keys
proof (relation "measure (\<lambda>(prev, s). length s)")
  fix prev :: bool and c :: "16 word" and cs :: jsstring and colon :: "16 word" and rest :: jsstring
  assume "dropWhile is_space (dropWhile is_word cs) = colon # rest"
  then have "length (dropWhile is_space (dropWhile is_word cs)) = Suc (length rest)" by simp
  moreover have "length (dropWhile is_space (dropWhile is_word cs)) \<le> length (dropWhile is_word cs)"
    by (rule length_dropWhile_le)
  moreover have "length (dropWhile is_word cs) \<le> length cs" by (rule length_dropWhile_le)
  ultimately show "((False, rest), (prev, c # cs)) \<in> measure (\<lambda>(prev, s). length s)" by simp
qed simp_all

declare quote_keys.simps [simp del]

subsection \<open>JSON.parse\<close>

text \<open>
  The JSON grammar as \<^verbatim>\<open>JSON.parse\<close> reads it. An object is built property by
  property: a repeated key overwrites the value where the key stands, a new key takes
  its place in the enumeration order; \<^verbatim>\<open>__proto__\<close> is a key like any other here.
  A number is kept as the host converts its literal. The parser runs on fuel; a text
  of \<open>n\<close> characters is given \<open>n + 1\<close>, which is enough: a parse that succeeds with any
  fuel succeeds with the fuel of as many characters as it consumes (lemma
  \<open>JSON_parse_fuel\<close>).
\<close>

definition json_space :: "16 word \<Rightarrow> bool" where
  "json_space c = (c = 0x20 \<or> c = 0x09 \<or> c = 0x0A \<or> c = 0x0D)"

definition hex_value :: "16 word \<Rightarrow> nat option" where
  "hex_value c =
     (if 0x30 \<le> c \<and> c \<le> 0x39 then Some (unat c - 0x30)
      else if 0x61 \<le> c \<and> c \<le> 0x66 then Some (unat c - 0x61 + 10)
      else if 0x41 \<le> c \<and> c \<le> 0x46 then Some (unat c - 0x41 + 10)
      else None)"

definition json_escape :: "16 word \<Rightarrow> 16 word option" where
  "json_escape e =
     (if e = 0x22 \<or> e = 0x5C \<or> e = 0x2F then Some e
      else if e = 0x62 then Some 0x08
      else if e = 0x66 then Some 0x0C
      else if e = 0x6E then Some 0x0A
      else if e = 0x72 then Some 0x0D
      else if e = 0x74 then Some 0x09
      else None)"

definition cons_result :: "16 word \<Rightarrow> (jsstring \<times> jsstring) option \<Rightarrow> (jsstring \<times> jsstring) option" where
  "cons_result c r = map_option (\<lambda>(s, t). (c # s, t)) r"

text \<open>A string, read from after its opening quote: its value and the text after its
  closing quote.\<close>

fun json_string :: "jsstring \<Rightarrow> (jsstring \<times> jsstring) option" where
  "json_string [] = None"
| "json_string (c # cs) =
     (if c = 0x22 then Some ([], cs)
      else if c = 0x5C then
        (case cs of
           [] \<Rightarrow> None
         | e # r \<Rightarrow>
             if e = 0x75 then
               (case r of
                  h1 # h2 # h3 # h4 # r' \<Rightarrow>
                    (case (hex_value h1, hex_value h2, hex_value h3, hex_value h4) of
                       (Some a, Some b, Some c', Some d) \<Rightarrow>
                         cons_result (of_nat (((a * 16 + b) * 16 + c') * 16 + d)) (json_string r')
                     | _ \<Rightarrow> None)
                | _ \<Rightarrow> None)
             else
               (case json_escape e of
                  Some x \<Rightarrow> cons_result x (json_string r)
                | None \<Rightarrow> None))
      else if c < 0x20 then None
      else cons_result c (json_string cs))"

text \<open>The literal of a number: \<^verbatim>\<open>-? (0 | [1-9][0-9]*) (. [0-9]+)? ([eE] [+-]? [0-9]+)?\<close>.\<close>

definition json_fraction :: "jsstring \<Rightarrow> (jsstring \<times> jsstring) option" where
  "json_fraction cs =
     (case cs of
        [] \<Rightarrow> Some ([], cs)
      | c # r \<Rightarrow>
          if c = 0x2E then
            (if takeWhile is_digit r = [] then None
             else Some (c # takeWhile is_digit r, dropWhile is_digit r))
          else Some ([], cs))"

definition json_exponent :: "jsstring \<Rightarrow> (jsstring \<times> jsstring) option" where
  "json_exponent cs =
     (case cs of
        [] \<Rightarrow> Some ([], cs)
      | c # r \<Rightarrow>
          if c = 0x65 \<or> c = 0x45 then
            (let sign = (case r of [] \<Rightarrow> [] | x # t \<Rightarrow> if x = 0x2B \<or> x = 0x2D then [x] else []);
                 r' = drop (length sign) r
             in if takeWhile is_digit r' = [] then None
                else Some (c # sign @ takeWhile is_digit r', dropWhile is_digit r'))
          else Some ([], cs))"

definition json_number :: "jsstring \<Rightarrow> (jsstring \<times> jsstring) option" where
  "json_number cs =
     (let sign = (case cs of [] \<Rightarrow> [] | x # t \<Rightarrow> if x = 0x2D then [x] else []) in
      case drop (length sign) cs of
        [] \<Rightarrow> None
      | d # r \<Rightarrow>
          if \<not> is_digit d then None
          else
            (let ip = (if d = 0x30 then [d] else d # takeWhile is_digit r);
                 r1 = (if d = 0x30 then r else dropWhile is_digit r)
             in case json_fraction r1 of
                  None \<Rightarrow> None
                | Some (fp, r2) \<Rightarrow>
                    (case json_exponent r2 of
                       None \<Rightarrow> None
                     | Some (ep, r3) \<Rightarrow> Some (sign @ ip @ fp @ ep, r3))))"

definition json_define :: "jsstring \<Rightarrow> 'v \<Rightarrow> (jsstring \<times> 'v) list \<Rightarrow> (jsstring \<times> 'v) list" where
  "json_define k v kvs =
     (if map_of kvs k \<noteq> None then overwrite k v kvs else define_own k v kvs)"

fun json_value :: "'n host \<Rightarrow> nat \<Rightarrow> jsstring \<Rightarrow> ('n js \<times> jsstring) option"
  and json_members ::
    "'n host \<Rightarrow> nat \<Rightarrow> (jsstring \<times> 'n js) list \<Rightarrow> jsstring \<Rightarrow> ('n js \<times> jsstring) option"
  and json_elements ::
    "'n host \<Rightarrow> nat \<Rightarrow> 'n js list \<Rightarrow> jsstring \<Rightarrow> ('n js \<times> jsstring) option" where
  "json_value H 0 cs = None"
| "json_value H (Suc n) cs =
     (case dropWhile json_space cs of
        [] \<Rightarrow> None
      | c # r \<Rightarrow>
          if c = 0x7B then
            (case dropWhile json_space r of
               [] \<Rightarrow> None
             | d # r' \<Rightarrow>
                 if d = 0x7D then Some (JObj None [], r') else json_members H n [] (d # r'))
          else if c = 0x5B then
            (case dropWhile json_space r of
               [] \<Rightarrow> None
             | d # r' \<Rightarrow>
                 if d = 0x5D then Some (JArr [], r') else json_elements H n [] (d # r'))
          else if c = 0x22 then map_option (\<lambda>(s, t). (JStr s, t)) (json_string r)
          else if is_prefix (ascii ''true'') (c # r) then Some (JBool True, drop 4 (c # r))
          else if is_prefix (ascii ''false'') (c # r) then Some (JBool False, drop 5 (c # r))
          else if is_prefix (ascii ''null'') (c # r) then Some (JNull, drop 4 (c # r))
          else map_option (\<lambda>(l, t). (JNum (number_of H l), t)) (json_number (c # r)))"
| "json_members H 0 acc cs = None"
| "json_members H (Suc n) acc cs =
     (case dropWhile json_space cs of
        [] \<Rightarrow> None
      | q # r \<Rightarrow>
          if q \<noteq> 0x22 then None
          else
            (case json_string r of
               None \<Rightarrow> None
             | Some (key, r1) \<Rightarrow>
                 (case dropWhile json_space r1 of
                    [] \<Rightarrow> None
                  | colon # r2 \<Rightarrow>
                      if colon \<noteq> 0x3A then None
                      else
                        (case json_value H n r2 of
                           None \<Rightarrow> None
                         | Some (v, r3) \<Rightarrow>
                             (case dropWhile json_space r3 of
                                [] \<Rightarrow> None
                              | x # r4 \<Rightarrow>
                                  if x = 0x2C then json_members H n (json_define key v acc) r4
                                  else if x = 0x7D then
                                    Some (JObj None (json_define key v acc), r4)
                                  else None)))))"
| "json_elements H 0 acc cs = None"
| "json_elements H (Suc n) acc cs =
     (case json_value H n cs of
        None \<Rightarrow> None
      | Some (v, r1) \<Rightarrow>
          (case dropWhile json_space r1 of
             [] \<Rightarrow> None
           | x # r2 \<Rightarrow>
               if x = 0x2C then json_elements H n (acc @ [v]) r2
               else if x = 0x5D then Some (JArr (acc @ [v]), r2)
               else None))"

definition JSON_parse :: "'n host \<Rightarrow> jsstring \<Rightarrow> error + 'n js" where
  "JSON_parse H s =
     (case json_value H (Suc (length s)) s of
        None \<Rightarrow> Inl SyntaxError
      | Some (v, rest) \<Rightarrow> if dropWhile json_space rest = [] then Inr v else Inl SyntaxError)"

subsection \<open>fetchShutdowns\<close>

text \<open>
  What \<^verbatim>\<open>fetch\<close> and JSDOM deliver: the response with its \<^verbatim>\<open>ok\<close> flag and status, and
  the \<^verbatim>\<open>textContent\<close> of the \<^verbatim>\<open>script\<close> elements of its body, in document order.
\<close>

record response =
  resp_ok :: bool
  resp_status :: nat
  resp_scripts :: "jsstring list"

datatype 'n event =
    ConsoleLog jsstring
  | ConsoleLogValue "'n js"
  | ConsoleError error
  | Reply jsstring

definition msg_not_found :: jsstring where
  "msg_not_found = [0x41D, 0x435, 0x20, 0x443, 0x434, 0x430, 0x43B, 0x43E, 0x441, 0x44C, 0x20,
     0x43D, 0x430, 0x439, 0x442, 0x438, 0x20] @ ascii ''DisconSchedule.fact''
     @ [0x20, 0x43D, 0x430, 0x20, 0x441, 0x442, 0x440, 0x430, 0x43D, 0x438, 0x446, 0x435]"

text \<open>The source text handed to \<^verbatim>\<open>Function\<close> when \<^verbatim>\<open>JSON.parse\<close> throws.\<close>

definition function_body :: "jsstring \<Rightarrow> jsstring" where
  "function_body m1 = [0x22] @ ascii ''use strict'' @ [0x22] @ ascii ''; return ('' @ m1 @ ascii '');''"

text \<open>The loop over the scripts: \<open>Some r\<close> when an iteration returns or throws \<open>r\<close>,
  \<open>None\<close> when the loop runs to its end.\<close>

fun scripts_loop :: "'n host \<Rightarrow> jsstring list \<Rightarrow> (error + 'n js) option" where
  "scripts_loop H [] = None"
| "scripts_loop H (txt # rest) =
     (if txt \<noteq> [] \<and> str_includes marker txt then
        (case regex_match txt of
           Some m1 \<Rightarrow>
             (case JSON_parse H (quote_keys False (double_quotes m1)) of
                Inr data \<Rightarrow> Some (Inr data)
              | Inl e \<Rightarrow> Some (run_Function H (function_body m1)))
         | None \<Rightarrow> scripts_loop H rest)
      else scripts_loop H rest)"

text \<open>The result: what was logged, and the value returned (\<open>JUndefined\<close> when the
  function ends without a \<^verbatim>\<open>return\<close>) or the error thrown. \<open>Inl e\<close> as the argument is a
  \<^verbatim>\<open>fetch\<close> that rejected.\<close>

definition fetchShutdowns :: "'n host \<Rightarrow> error + response \<Rightarrow> 'n event list \<times> (error + 'n js)" where
  "fetchShutdowns H fetched =
     (case fetched of
        Inl e \<Rightarrow> ([], Inl e)
      | Inr resp \<Rightarrow>
          if \<not> resp_ok resp then ([], Inl (HttpError (resp_status resp)))
          else
            (case scripts_loop H (resp_scripts resp) of
               Some r \<Rightarrow> ([], r)
             | None \<Rightarrow> ([ConsoleLog msg_not_found], Inr JUndefined)))"

section \<open>The handler of the start command\<close>

text \<open>
  The handler is modelled by what it does, in order: the texts it logs and the replies
  it sends. A reply is an event here; what the messaging service does with it is not
  part of the model.
\<close>

text \<open>The sender of the command: \<open>username\<close> and \<open>first_name\<close> may be absent; \<open>user_id\<close> is
  the numeric id as a template literal renders it.\<close>

record user =
  username :: "jsstring option"
  user_id :: jsstring
  first_name :: "jsstring option"

definition msg_start_from :: jsstring where
  "msg_start_from = ascii ''/start from ''"

definition msg_greeting :: jsstring where
  "msg_greeting = [0x41F, 0x440, 0x438, 0x432, 0x435, 0x442, 0x2C, 0x20]"

definition msg_user :: jsstring where
  "msg_user = [0x43F, 0x43E, 0x43B, 0x44C, 0x437, 0x43E, 0x432, 0x430, 0x442, 0x435, 0x43B, 0x44C]"

definition msg_requesting :: jsstring where
  "msg_requesting = [0x21, 0x20, 0x417, 0x430, 0x43F, 0x440, 0x430, 0x448, 0x438, 0x432, 0x430,
     0x44E, 0x20, 0x434, 0x430, 0x43D, 0x43D, 0x44B, 0x435, 0x2E, 0x2E, 0x2E]"

text \<open>The reply \<^verbatim>\<open>'Pustoj otvet ot API.'\<close> (in Cyrillic): the empty-response message.\<close>

definition msg_empty_response :: jsstring where
  "msg_empty_response = [0x41F, 0x443, 0x441, 0x442, 0x43E, 0x439, 0x20, 0x43E, 0x442, 0x432,
     0x435, 0x442, 0x20, 0x43E, 0x442, 0x20, 0x41, 0x50, 0x49, 0x2E]"

definition msg_status :: jsstring where
  "msg_status = [0x41, 0x50, 0x49, 0x20, 0x432, 0x435, 0x440, 0x43D, 0x443, 0x43B, 0x20, 0x441,
     0x442, 0x430, 0x442, 0x443, 0x441, 0x3A, 0x20]"

definition msg_apology :: jsstring where
  "msg_apology = [0x423, 0x43F, 0x441, 0x20, 0x2014, 0x20, 0x43D, 0x435, 0x20, 0x443, 0x434,
     0x430, 0x43B, 0x43E, 0x441, 0x44C, 0x20, 0x43F, 0x43E, 0x43B, 0x443, 0x447, 0x438, 0x442,
     0x44C, 0x20, 0x434, 0x430, 0x43D, 0x43D, 0x44B, 0x435, 0x2E, 0x20, 0x41F, 0x43E, 0x43F,
     0x440, 0x43E, 0x431, 0x443, 0x439, 0x442, 0x435, 0x20, 0x43F, 0x43E, 0x437, 0x436, 0x435,
     0x2E]"

text \<open>\<^verbatim>\<open>a || b\<close> on a string that may be absent: \<^verbatim>\<open>undefined\<close> and \<open>''\<close> are falsy.\<close>

definition or_else :: "jsstring option \<Rightarrow> jsstring \<Rightarrow> jsstring" where
  "or_else a b = (case a of None \<Rightarrow> b | Some s \<Rightarrow> if s = [] then b else s)"

fun truthy :: "'n host \<Rightarrow> 'n js \<Rightarrow> bool" where
  "truthy H JUndefined = False"
| "truthy H JNull = False"
| "truthy H (JBool b) = b"
| "truthy H (JNum n) = number_truthy H n"
| "truthy H (JStr s) = (s \<noteq> [])"
| "truthy H (JArr xs) = True"
| "truthy H (JObj p kvs) = True"

text \<open>\<^verbatim>\<open>data?.data\<close>.\<close>

definition optional_data :: "'n js \<Rightarrow> 'n js" where
  "optional_data data = (if nullish data then JUndefined else property_value data (ascii ''data''))"

definition MAX_MSG_LEN :: nat where
  "MAX_MSG_LEN = 4000"

text \<open>The loop \<^verbatim>\<open>for (let i = 0; i < text.length; i += MAX_MSG_LEN)\<close>.\<close>

function chunk_loop :: "jsstring \<Rightarrow> nat \<Rightarrow> jsstring list" where
  "chunk_loop text i =
     (if i < length text then take MAX_MSG_LEN (drop i text) # chunk_loop text (i + MAX_MSG_LEN)
      else [])"
  by pat_completeness auto
termination
  by (relation "measure (\<lambda>(text, i). length text - i)") (auto simp: MAX_MSG_LEN_def)

declare chunk_loop.simps [simp del]

definition send_text :: "jsstring \<Rightarrow> 'n event list" where
  "send_text text =
     (if length text \<le> MAX_MSG_LEN then [Reply text] else map Reply (chunk_loop text 0))"

text \<open>The handler after its two guards: the payload is logged, filtered, compressed and
  sent. The result is what happened, and the error thrown, if any.\<close>

definition report :: "'n host \<Rightarrow> 'n js \<Rightarrow> 'n event list \<times> error option" where
  "report H payload =
     (case filterGPVKeys payload [ascii ''GPV5.1'', ascii ''GPV3.2''] of
        Inl e \<Rightarrow> ([ConsoleLogValue payload], Some e)
      | Inr filteredData \<Rightarrow>
          (case parseLightSchedule H filteredData of
             Inl e \<Rightarrow> ([ConsoleLogValue payload], Some e)
           | Inr text \<Rightarrow> (ConsoleLogValue payload # send_text text, None)))"

text \<open>The body of the \<^verbatim>\<open>try\<close> block.\<close>

definition try_block :: "'n host \<Rightarrow> error + response \<Rightarrow> 'n event list \<times> error option" where
  "try_block H fetched =
     (case fetchShutdowns H fetched of
        (logs, Inl e) \<Rightarrow> (logs, Some e)
      | (logs, Inr data) \<Rightarrow>
          if \<not> truthy H (optional_data data) then (logs @ [Reply msg_empty_response], None)
          else if truthy H (property_value data (ascii ''status''))
                  \<and> property_value data (ascii ''status'') \<noteq> JStr (ascii ''ok'') then
            (case to_text H (property_value data (ascii ''status'')) of
               Inl e \<Rightarrow> (logs, Some e)
             | Inr s \<Rightarrow> (logs @ [Reply (msg_status @ s)], None))
          else
            (case report H (property_value data (ascii ''data'')) of
               (events, err) \<Rightarrow> (logs @ events, err)))"

definition start_handler :: "'n host \<Rightarrow> user \<Rightarrow> error + response \<Rightarrow> 'n event list" where
  "start_handler H u fetched =
     [ConsoleLog (msg_start_from @ or_else (username u) (user_id u)),
      Reply (msg_greeting @ or_else (first_name u) msg_user @ msg_requesting)]
     @ (case try_block H fetched of
          (events, None) \<Rightarrow> events
        | (events, Some e) \<Rightarrow> events @ [ConsoleError e, Reply msg_apology])"

section \<open>Notions the properties are stated with\<close>

text \<open>Hour \<open>h\<close> is without power: the test \<^verbatim>\<open>timeSlots[hour.toString()] === 'no'\<close>.\<close>

definition no_power :: "'n js \<Rightarrow> int \<Rightarrow> bool" where
  "no_power timeSlots h = (property_value timeSlots (int_to_string h) = JStr (ascii ''no''))"

text \<open>The periods found so far, the one still open last.\<close>

definition open_periods :: "period option \<Rightarrow> period list \<Rightarrow> period list" where
  "open_periods currentPeriod ps = (case currentPeriod of Some p \<Rightarrow> ps @ [p] | None \<Rightarrow> ps)"

text \<open>The invariant of the loop over the hours, at the head of the iteration for \<open>hour\<close>.\<close>

definition loop_inv :: "'n js \<Rightarrow> int \<Rightarrow> period option \<Rightarrow> period list \<Rightarrow> bool" where
  "loop_inv t hour cur ps =
     (sorted_wrt (\<lambda>p q. p_end p < p_start q) (open_periods cur ps)
      \<and> list_all (\<lambda>p. 0 \<le> p_start p \<and> p_start p < p_end p) (open_periods cur ps)
      \<and> list_all (\<lambda>p. p_end p < hour - 1) ps
      \<and> (case cur of Some c \<Rightarrow> p_end c = hour - 1 | None \<Rightarrow> True)
      \<and> (\<forall>h. 1 \<le> h \<and> h < hour \<longrightarrow>
            no_power t h = list_ex (\<lambda>p. p_start p < h \<and> h \<le> p_end p) (open_periods cur ps)))"

text \<open>The enumeration order of own properties: an array index stands only after
  smaller array indices. Every object of JavaScript lists its own properties so, and
  each key once.\<close>

definition key_before :: "jsstring \<Rightarrow> jsstring \<Rightarrow> bool" where
  "key_before k1 k2 =
     (case array_index k2 of
        None \<Rightarrow> True
      | Some n2 \<Rightarrow> (case array_index k1 of None \<Rightarrow> False | Some n1 \<Rightarrow> n1 < n2))"

definition own_properties_ok :: "(jsstring \<times> 'v) list \<Rightarrow> bool" where
  "own_properties_ok kvs = (distinct (map fst kvs) \<and> sorted_wrt key_before (map fst kvs))"


text \<open>The ScheduleDocument of the specification: a plain object whose keys are Unix
  timestamps in decimal digits, each with a feeder mapping, a plain object from feeder
  identifiers to Hour-Status-Maps, themselves plain objects.\<close>

definition is_timestamp :: "jsstring \<Rightarrow> bool" where
  "is_timestamp k = (k \<noteq> [] \<and> list_all is_digit k)"

fun hour_status_map :: "'n js \<Rightarrow> bool" where
  "hour_status_map (JObj None hs) = own_properties_ok hs"
| "hour_status_map _ = False"

fun feeder_mapping :: "'n js \<Rightarrow> bool" where
  "feeder_mapping (JObj None fs) =
     (own_properties_ok fs \<and> list_all (\<lambda>(g, h). hour_status_map h) fs)"
| "feeder_mapping _ = False"

fun schedule_document :: "'n js \<Rightarrow> bool" where
  "schedule_document (JObj None dates) =
     (own_properties_ok dates \<and> list_all (\<lambda>(k, f). is_timestamp k \<and> feeder_mapping f) dates)"
| "schedule_document _ = False"



section \<open>Examples\<close>

text \<open>
  A host for the closed examples: the process runs in UTC, so the date of a timestamp
  is its UTC calendar day, written \<^verbatim>\<open>dd.mm.yyyy\<close> as the locale \<^verbatim>\<open>ru-RU\<close> does. The
  examples hold no number, evaluate no source text and render no status: these three
  are given no meaning here (every number is one value; \<^verbatim>\<open>Function\<close> and \<^verbatim>\<open>String\<close>
  raise).
\<close>

definition date_of_days :: "int \<Rightarrow> int \<times> int \<times> int" where
  "date_of_days days =
     (let z = days + 719468;
          era = z div 146097;
          doe = z mod 146097;
          yoe = (doe - doe div 1460 + doe div 36524 - doe div 146096) div 365;
          doy = doe - (365 * yoe + yoe div 4 - yoe div 100);
          mp = (5 * doy + 2) div 153;
          d = doy - (153 * mp + 2) div 5 + 1;
          m = (if mp < 10 then mp + 3 else mp - 9);
          y = yoe + era * 400 + (if m \<le> 2 then 1 else 0)
      in (d, m, y))"

definition two_digits :: "int \<Rightarrow> jsstring" where
  "two_digits n = (if n < 10 then ascii ''0'' @ int_to_string n else int_to_string n)"

definition utc_date :: "jsstring \<Rightarrow> jsstring" where
  "utc_date ts =
     (if is_timestamp ts \<and> decimal_value ts \<le> 8640000000000 then
        (case date_of_days (int (decimal_value ts div 86400)) of
           (d, m, y) \<Rightarrow> two_digits d @ ascii ''.'' @ two_digits m @ ascii ''.'' @ int_to_string y)
      else ascii ''Invalid Date'')"

definition example_host :: "unit host" where
  "example_host =
     \<lparr>number_of = (\<lambda>l. ()), number_truthy = (\<lambda>n. True), to_text = (\<lambda>v. Inl TypeError),
      run_Function = (\<lambda>s. Inl EvalError), locale_date = utc_date\<rparr>"

definition example_user :: user where
  "example_user = \<lparr>username = Some (ascii ''reader''), user_id = ascii ''42'', first_name = None\<rparr>"

text \<open>The page of the scenario of the specification: one script with the assignment.\<close>

definition scenario_script :: jsstring where
  "scenario_script =
     ascii ''DisconSchedule.fact = {'1700000000': {'GPV5.1': {'9':'no','10':'no','11':'yes'}}}''"

definition scenario_response :: response where
  "scenario_response = \<lparr>resp_ok = True, resp_status = 200, resp_scripts = [scenario_script]\<rparr>"

definition scenario_hours :: "'n js" where
  "scenario_hours =
     JObj None [(ascii ''9'', JStr (ascii ''no'')), (ascii ''10'', JStr (ascii ''no'')),
       (ascii ''11'', JStr (ascii ''yes''))]"

definition scenario_document :: "'n js" where
  "scenario_document =
     JObj None [(ascii ''1700000000'', JObj None [(ascii ''GPV5.1'', scenario_hours)])]"

definition scenario_line :: "'n host \<Rightarrow> jsstring" where
  "scenario_line H =
     line_date @ locale_date H (ascii ''1700000000'') @ line_schedule @ ascii ''5.1''
       @ line_periods @ ascii ''8 - 10''"

text \<open>The same schedule under a \<^verbatim>\<open>data\<close> property of the assigned object.\<close>

definition wrapped_script :: jsstring where
  "wrapped_script =
     ascii ''DisconSchedule.fact = {'data': {'1700000000': {'GPV5.1': {'9':'no','10':'no','11':'yes'}}}}''"

definition wrapped_response :: response where
  "wrapped_response = \<lparr>resp_ok = True, resp_status = 200, resp_scripts = [wrapped_script]\<rparr>"

text \<open>A page with two days, the later one first, and a statement after the assignment.\<close>

definition two_day_script :: jsstring where
  "two_day_script =
     ascii ''DisconSchedule.fact = {'1700086400': {'GPV3.2': {'1':'no'}}, '1700000000': {'GPV5.1': {'24':'no'}}} DisconSchedule.showTable()''"

definition two_day_response :: response where
  "two_day_response =
     \<lparr>resp_ok = True, resp_status = 200, resp_scripts = [ascii ''var page = 1;'', two_day_script]\<rparr>"

definition two_day_document :: "'n js" where
  "two_day_document =
     JObj None
       [(ascii ''1700000000'', JObj None [(ascii ''GPV5.1'', JObj None [(ascii ''24'', JStr (ascii ''no''))])]),
        (ascii ''1700086400'', JObj None [(ascii ''GPV3.2'', JObj None [(ascii ''1'', JStr (ascii ''no''))])])]"

text \<open>A page without the marker.\<close>

definition plain_response :: response where
  "plain_response =
     \<lparr>resp_ok = True, resp_status = 200,
      resp_scripts = [ascii ''var page = 1;'', [], ascii ''DisconSchedule.preset = {}'']\<rparr>"

text \<open>Hour-Status-Maps: outages at the hours 1, 2, 4 and 24; at the hours 3, 4, 5 and 9;
  at every hour; and two maps that agree on the keys \<^verbatim>\<open>1\<close> to \<^verbatim>\<open>24\<close> only.\<close>

definition example_hours :: "unit js" where
  "example_hours =
     JObj None [(ascii ''1'', JStr (ascii ''no'')), (ascii ''2'', JStr (ascii ''no'')),
       (ascii ''3'', JStr (ascii ''yes'')), (ascii ''4'', JStr (ascii ''no'')),
       (ascii ''24'', JStr (ascii ''no''))]"

definition gap_hours :: "unit js" where
  "gap_hours =
     JObj None [(ascii ''3'', JStr (ascii ''no'')), (ascii ''4'', JStr (ascii ''no'')),
       (ascii ''5'', JStr (ascii ''no'')), (ascii ''6'', JStr (ascii ''yes'')),
       (ascii ''9'', JStr (ascii ''no''))]"

definition all_day_hours :: "unit js" where
  "all_day_hours = JObj None (map (\<lambda>h. (int_to_string h, JStr (ascii ''no''))) [1..24])"

definition nine_hours :: "unit js" where
  "nine_hours = JObj None [(ascii ''9'', JStr (ascii ''no''))]"

definition nine_hours_extra :: "unit js" where
  "nine_hours_extra =
     JObj None [(ascii ''0'', JStr (ascii ''no'')), (ascii ''9'', JStr (ascii ''no'')),
       (ascii ''25'', JStr (ascii ''no'')), (ascii ''09'', JStr (ascii ''yes''))]"




section \<open>The interval compressor\<close>

lemma hours_loop_step:
  assumes "\<not> nullish t" "hour \<le> 24"
  shows "hours_loop t hour cur ps =
     (if no_power t hour then
        hours_loop t (hour + 1)
          (Some (case cur of None \<Rightarrow> \<lparr>p_start = hour - 1, p_end = hour\<rparr>
                 | Some p \<Rightarrow> p\<lparr>p_end := hour\<rparr>)) ps
      else hours_loop t (hour + 1) None (open_periods cur ps))"
  using assms
  by (subst hours_loop.simps) (simp add: js_get_def no_power_def open_periods_def split: option.split)

lemma hours_loop_done: "24 < hour \<Longrightarrow> hours_loop t hour cur ps = Inr (cur, ps)"
  by (subst hours_loop.simps) simp

lemma hours_loop_nullish:
  "nullish t \<Longrightarrow> hour \<le> 24 \<Longrightarrow> hours_loop t hour cur ps = Inl TypeError"
  by (subst hours_loop.simps) (simp add: js_get_def)

lemma noLightPeriods_nullish: "nullish t \<Longrightarrow> noLightPeriods t = Inl TypeError"
  by (simp add: noLightPeriods_def hours_loop_nullish)

text \<open>The invariant holds at the start and is kept by each of the branches of the loop
  body: a period opens, the open period grows, or the hour has power.\<close>

lemma loop_inv_start: "loop_inv t 1 None []"
  by (auto simp: loop_inv_def open_periods_def)

lemma loop_inv_open:
  assumes "loop_inv t hour None ps" "1 \<le> hour" "no_power t hour"
  shows "loop_inv t (hour + 1) (Some \<lparr>p_start = hour - 1, p_end = hour\<rparr>) ps"
proof -
  from assms(1) have
    s: "sorted_wrt (\<lambda>p q. p_end p < p_start q) ps"
    and v: "\<forall>p \<in> set ps. 0 \<le> p_start p \<and> p_start p < p_end p"
    and e: "\<forall>p \<in> set ps. p_end p < hour - 1"
    and cov: "\<And>h. 1 \<le> h \<Longrightarrow> h < hour \<Longrightarrow>
                no_power t h = (\<exists>p \<in> set ps. p_start p < h \<and> h \<le> p_end p)"
    by (simp_all add: loop_inv_def open_periods_def list_all_iff list_ex_iff)
  have "no_power t h
          = (hour - 1 < h \<and> h \<le> hour \<or> (\<exists>p \<in> set ps. p_start p < h \<and> h \<le> p_end p))"
    if "1 \<le> h" "h < hour + 1" for h
  proof (cases "h = hour")
    case True
    with assms(3) show ?thesis by simp
  next
    case False
    with that have "h < hour" by simp
    with cov [OF that(1) this] show ?thesis by auto
  qed
  with s v e assms(2) show ?thesis
    by (auto simp: loop_inv_def open_periods_def sorted_wrt_append list_all_iff list_ex_iff)
qed

lemma loop_inv_extend:
  assumes "loop_inv t hour (Some c) ps" "no_power t hour"
  shows "loop_inv t (hour + 1) (Some (c\<lparr>p_end := hour\<rparr>)) ps"
proof -
  from assms(1) have
    s: "sorted_wrt (\<lambda>p q. p_end p < p_start q) ps" "\<forall>p \<in> set ps. p_end p < p_start c"
    and v: "\<forall>p \<in> set ps. 0 \<le> p_start p \<and> p_start p < p_end p"
      "0 \<le> p_start c" "p_start c < p_end c"
    and e: "\<forall>p \<in> set ps. p_end p < hour - 1" "p_end c = hour - 1"
    and cov: "\<And>h. 1 \<le> h \<Longrightarrow> h < hour \<Longrightarrow>
                no_power t h = (p_start c < h \<and> h \<le> p_end c
                                \<or> (\<exists>p \<in> set ps. p_start p < h \<and> h \<le> p_end p))"
    by (auto simp: loop_inv_def open_periods_def sorted_wrt_append list_all_iff list_ex_iff)
  have "no_power t h
          = (p_start c < h \<and> h \<le> hour \<or> (\<exists>p \<in> set ps. p_start p < h \<and> h \<le> p_end p))"
    if "1 \<le> h" "h < hour + 1" for h
  proof (cases "h = hour")
    case True
    with assms(2) v e show ?thesis by simp
  next
    case False
    with that have "h < hour" by simp
    with cov [OF that(1) this] e show ?thesis by auto
  qed
  with s v e show ?thesis
    by (auto simp: loop_inv_def open_periods_def sorted_wrt_append list_all_iff list_ex_iff)
qed

lemma loop_inv_close:
  assumes "loop_inv t hour cur ps" "\<not> no_power t hour"
  shows "loop_inv t (hour + 1) None (open_periods cur ps)"
proof -
  let ?qs = "open_periods cur ps"
  from assms(1) have
    s: "sorted_wrt (\<lambda>p q. p_end p < p_start q) ?qs"
    and v: "list_all (\<lambda>p. 0 \<le> p_start p \<and> p_start p < p_end p) ?qs"
    and e: "\<forall>p \<in> set ps. p_end p < hour - 1"
      "case cur of Some c \<Rightarrow> p_end c = hour - 1 | None \<Rightarrow> True"
    and cov: "\<And>h. 1 \<le> h \<Longrightarrow> h < hour \<Longrightarrow>
                no_power t h = (\<exists>p \<in> set ?qs. p_start p < h \<and> h \<le> p_end p)"
    by (simp_all add: loop_inv_def list_all_iff list_ex_iff)
  from e have e': "\<forall>p \<in> set ?qs. p_end p < hour"
    by (cases cur) (auto simp: open_periods_def)
  have "no_power t h = (\<exists>p \<in> set ?qs. p_start p < h \<and> h \<le> p_end p)"
    if "1 \<le> h" "h < hour + 1" for h
  proof (cases "h = hour")
    case True
    with assms(2) e' show ?thesis by auto
  next
    case False
    with that have "h < hour" by simp
    with cov [OF that(1) this] show ?thesis by simp
  qed
  with s v e' show ?thesis
    by (auto simp: loop_inv_def open_periods_def [of None] list_all_iff list_ex_iff)
qed

text \<open>The loop returns, with the invariant at \<open>hour = 25\<close>.\<close>

lemma hours_loop_inv:
  assumes "\<not> nullish t"
  shows "1 \<le> hour \<Longrightarrow> hour \<le> 25 \<Longrightarrow> loop_inv t hour cur ps \<Longrightarrow>
         \<exists>cur' ps'. hours_loop t hour cur ps = Inr (cur', ps') \<and> loop_inv t 25 cur' ps'"
proof (induction "nat (25 - hour)" arbitrary: hour cur ps)
  case 0
  then have "hour = 25" by simp
  with 0 show ?case by (simp add: hours_loop_done)
next
  case (Suc n)
  then have le: "hour \<le> 24" and n: "n = nat (25 - (hour + 1))" by simp_all
  show ?case
  proof (cases "no_power t hour")
    case True
    show ?thesis
    proof (cases cur)
      case None
      with Suc.prems True
      have "loop_inv t (hour + 1) (Some \<lparr>p_start = hour - 1, p_end = hour\<rparr>) ps"
        by (simp add: loop_inv_open)
      with Suc.hyps(1) [OF n] le Suc.prems(1) None True assms show ?thesis
        by (simp add: hours_loop_step)
    next
      case (Some c)
      with Suc.prems True have "loop_inv t (hour + 1) (Some (c\<lparr>p_end := hour\<rparr>)) ps"
        by (simp add: loop_inv_extend)
      with Suc.hyps(1) [OF n] le Suc.prems(1) Some True assms show ?thesis
        by (simp add: hours_loop_step)
    qed
  next
    case False
    with Suc.prems have "loop_inv t (hour + 1) None (open_periods cur ps)"
      by (simp add: loop_inv_close)
    with Suc.hyps(1) [OF n] le Suc.prems(1) False assms show ?thesis
      by (simp add: hours_loop_step)
  qed
qed

lemma noLightPeriods_inv:
  assumes "\<not> nullish t"
  shows "\<exists>cur ps. noLightPeriods t = Inr (open_periods cur ps) \<and> loop_inv t 25 cur ps"
proof -
  from hours_loop_inv [OF assms, of 1 None "[]"] loop_inv_start
  obtain cur ps where "hours_loop t 1 None [] = Inr (cur, ps)" "loop_inv t 25 cur ps"
    by auto
  then show ?thesis
    by (auto simp: noLightPeriods_def open_periods_def split: option.split)
qed

text \<open>The loop reads its argument only through the test of each hour.\<close>

lemma hours_loop_cong:
  assumes "\<not> nullish a" "\<not> nullish b"
  shows "(\<forall>h. hour \<le> h \<and> h \<le> 24 \<longrightarrow> no_power a h = no_power b h) \<Longrightarrow>
         hours_loop a hour cur ps = hours_loop b hour cur ps"
proof (induction "nat (25 - hour)" arbitrary: hour cur ps)
  case 0
  then show ?case by (simp add: hours_loop_done)
next
  case (Suc n)
  then have le: "hour \<le> 24" and n: "n = nat (25 - (hour + 1))" by simp_all
  from Suc.prems le have same: "no_power a hour = no_power b hour" by simp
  from Suc.prems have later: "\<forall>h. hour + 1 \<le> h \<and> h \<le> 24 \<longrightarrow> no_power a h = no_power b h"
    by simp
  show ?case
    using Suc.hyps(1) [OF n later] assms le same by (simp add: hours_loop_step)
qed

lemma noLightPeriods_cong:
  assumes "\<forall>h. 1 \<le> h \<and> h \<le> 24 \<longrightarrow> js_get a (int_to_string h) = js_get b (int_to_string h)"
  shows "noLightPeriods a = noLightPeriods b"
proof (cases "nullish a")
  case True
  from assms have "js_get a (int_to_string 1) = js_get b (int_to_string 1)" by simp
  with True have "nullish b" by (simp add: js_get_def split: if_splits)
  with True show ?thesis by (simp add: noLightPeriods_nullish)
next
  case False
  from assms have "js_get a (int_to_string 1) = js_get b (int_to_string 1)" by simp
  with False have nb: "\<not> nullish b" by (simp add: js_get_def split: if_splits)
  with False assms have "\<forall>h. 1 \<le> h \<and> h \<le> 24 \<longrightarrow> no_power a h = no_power b h"
    by (simp add: js_get_def no_power_def)
  with False nb have "hours_loop a 1 None [] = hours_loop b 1 None []"
    by (rule hours_loop_cong)
  then show ?thesis by (simp add: noLightPeriods_def)
qed

lemma suffix_example: "feederSuffix (ascii ''GPV5.1'') = ascii ''5.1''"
  by (simp add: feederSuffix_def ascii_def)

text \<open>A property of the hours from 1 to 24, checked hour by hour.\<close>

lemma each_hour: "list_all P [1..24] \<Longrightarrow> 1 \<le> h \<Longrightarrow> h \<le> (24 :: int) \<Longrightarrow> P h"
  by (simp only: list_all_iff set_upto atLeastAtMost_iff)

lemma hours_list:
  "[1..24] = [1, 2, 3, 4, 5, 6, 7, 8, 9, 10, 11, 12, 13, 14, 15, 16, 17, 18, 19, 20, 21, 22, 23, 24 :: int]"
  by (simp add: upto.simps)

lemma period_text_examples:
  "period_text \<lparr>p_start = 2, p_end = 5\<rparr> = ascii ''2 - 5''"
  "period_text \<lparr>p_start = 8, p_end = 9\<rparr> = ascii ''8 - 9''"
  "period_text \<lparr>p_start = 0, p_end = 24\<rparr> = ascii ''0 - 24''"
  "period_text \<lparr>p_start = 8, p_end = 10\<rparr> = ascii ''8 - 10''"
  by (simp_all add: period_text_def int_to_string_def digits.simps ascii_def)

text \<open>C3: for every Hour-Status-Map the compressor returns a list of intervals in which
  every interval has \<open>0 \<le> start < end \<le> 24\<close> and every interval ends before each later
  one starts (so they do not overlap, are listed in increasing order and no two are
  adjacent); the intervals cover exactly the hours without power.\<close>

theorem compress_intervals:
  assumes "\<not> nullish timeSlots"
  shows "\<exists>ps. noLightPeriods timeSlots = Inr ps
           \<and> (\<forall>p \<in> set ps. 0 \<le> p_start p \<and> p_start p < p_end p \<and> p_end p \<le> 24)
           \<and> (\<forall>i j. i < j \<and> j < length ps \<longrightarrow> p_end (ps ! i) < p_start (ps ! j))
           \<and> (\<forall>h. 1 \<le> h \<and> h \<le> 24 \<longrightarrow>
                 no_power timeSlots h = (\<exists>p \<in> set ps. p_start p < h \<and> h \<le> p_end p))"
proof -
  from noLightPeriods_inv [OF assms] obtain cur ps where
    r: "noLightPeriods timeSlots = Inr (open_periods cur ps)"
    and inv: "loop_inv timeSlots 25 cur ps"
    by blast
  let ?qs = "open_periods cur ps"
  from inv have s: "sorted_wrt (\<lambda>p q. p_end p < p_start q) ?qs"
    and v: "list_all (\<lambda>p. 0 \<le> p_start p \<and> p_start p < p_end p) ?qs"
    and e: "list_all (\<lambda>p. p_end p < 24) ps"
    and c: "case cur of Some c \<Rightarrow> p_end c = 24 | None \<Rightarrow> True"
    and cov: "\<forall>h. 1 \<le> h \<and> h < 25 \<longrightarrow>
            no_power timeSlots h = list_ex (\<lambda>p. p_start p < h \<and> h \<le> p_end p) ?qs"
    by (simp_all add: loop_inv_def split: option.splits)
  have b: "\<forall>p \<in> set ?qs. p_end p \<le> 24"
    using e c by (cases cur) (auto simp: open_periods_def list_all_iff)
  have "\<forall>p \<in> set ?qs. 0 \<le> p_start p \<and> p_start p < p_end p \<and> p_end p \<le> 24"
    using v b by (auto simp: list_all_iff)
  moreover have "\<forall>i j. i < j \<and> j < length ?qs \<longrightarrow> p_end (?qs ! i) < p_start (?qs ! j)"
    using s by (simp add: sorted_wrt_iff_nth_less)
  moreover have "\<forall>h. 1 \<le> h \<and> h \<le> 24 \<longrightarrow>
       no_power timeSlots h = (\<exists>p \<in> set ?qs. p_start p < h \<and> h \<le> p_end p)"
    using cov by (auto simp: list_ex_iff)
  ultimately show ?thesis using r by blast
qed

theorem compress_intervals_witness:
  "\<not> nullish example_hours
   \<and> noLightPeriods example_hours
       = Inr [\<lparr>p_start = 0, p_end = 2\<rparr>, \<lparr>p_start = 3, p_end = 4\<rparr>, \<lparr>p_start = 23, p_end = 24\<rparr>]
   \<and> (\<exists>ps. noLightPeriods example_hours = Inr ps
           \<and> (\<forall>p \<in> set ps. 0 \<le> p_start p \<and> p_start p < p_end p \<and> p_end p \<le> 24)
           \<and> (\<forall>i j. i < j \<and> j < length ps \<longrightarrow> p_end (ps ! i) < p_start (ps ! j))
           \<and> (\<forall>h. 1 \<le> h \<and> h \<le> 24 \<longrightarrow>
                 no_power example_hours h = (\<exists>p \<in> set ps. p_start p < h \<and> h \<le> p_end p)))"
proof -
  have n: "\<not> nullish example_hours" by (simp add: example_hours_def)
  have "noLightPeriods example_hours
       = Inr [\<lparr>p_start = 0, p_end = 2\<rparr>, \<lparr>p_start = 3, p_end = 4\<rparr>, \<lparr>p_start = 23, p_end = 24\<rparr>]"
    by (simp add: noLightPeriods_def example_hours_def hours_loop.simps js_get_def
          property_value_def int_to_string_def digits.simps ascii_def)
  with n compress_intervals [OF n] show ?thesis by blast
qed

text \<open>C4: when the status is \<^verbatim>\<open>no\<close> at exactly the hours 3, 4, 5 and 9, the compressor
  yields the two intervals (2, 5) and (8, 9); they render as \<^verbatim>\<open>2 - 5\<close> and \<^verbatim>\<open>8 - 9\<close>, and
  the interval text of the emitted line is \<^verbatim>\<open>2 - 5, 8 - 9\<close>.\<close>

theorem gap_periods:
  assumes "\<not> nullish timeSlots"
    and "\<forall>h. 1 \<le> h \<and> h \<le> 24 \<longrightarrow> no_power timeSlots h = (h \<in> {3, 4, 5, 9})"
  shows "noLightPeriods timeSlots = Inr [\<lparr>p_start = 2, p_end = 5\<rparr>, \<lparr>p_start = 8, p_end = 9\<rparr>]
         \<and> map period_text [\<lparr>p_start = 2, p_end = 5\<rparr>, \<lparr>p_start = 8, p_end = 9\<rparr>]
             = [ascii ''2 - 5'', ascii ''8 - 9'']
         \<and> schedules_loop formattedDate [(scheduleName, timeSlots)] []
             = Inr [line_date @ formattedDate @ line_schedule @ feederSuffix scheduleName
                    @ line_periods @ ascii ''2 - 5, 8 - 9'']"
proof -
  from assms have
    "noLightPeriods timeSlots = Inr [\<lparr>p_start = 2, p_end = 5\<rparr>, \<lparr>p_start = 8, p_end = 9\<rparr>]"
    by (simp add: noLightPeriods_def hours_loop_step hours_loop_done open_periods_def)
  moreover have "periodTexts [\<lparr>p_start = 2, p_end = 5\<rparr>, \<lparr>p_start = 8, p_end = 9\<rparr>]
                   = ascii ''2 - 5, 8 - 9''"
    by (simp add: periodTexts_def period_text_examples) (simp add: ascii_def)
  ultimately show ?thesis
    by (simp add: period_text_examples schedule_line_def)
qed

theorem gap_periods_witness:
  "\<not> nullish gap_hours
   \<and> list_all (\<lambda>h. no_power gap_hours h = (h \<in> {3, 4, 5, 9})) [1..24]
   \<and> noLightPeriods gap_hours = Inr [\<lparr>p_start = 2, p_end = 5\<rparr>, \<lparr>p_start = 8, p_end = 9\<rparr>]
   \<and> schedules_loop (ascii ''14.11.2023'') [(ascii ''GPV5.1'', gap_hours)] []
       = Inr [line_date @ ascii ''14.11.2023'' @ line_schedule @ ascii ''5.1''
              @ line_periods @ ascii ''2 - 5, 8 - 9'']"
proof -
  have n: "\<not> nullish gap_hours" by (simp add: gap_hours_def)
  have a: "list_all (\<lambda>h. no_power gap_hours h = (h \<in> {3, 4, 5, 9})) [1..24]"
    apply (simp only: hours_list list.pred_inject)
    apply (simp add: no_power_def gap_hours_def property_value_def int_to_string_def digits.simps
          ascii_def)
    done
  then have "\<forall>h. 1 \<le> h \<and> h \<le> 24 \<longrightarrow> no_power gap_hours h = (h \<in> {3, 4, 5, 9})"
    using each_hour by blast
  from gap_periods [OF n this, of "ascii ''14.11.2023''" "ascii ''GPV5.1''",
      unfolded suffix_example] n a
  show ?thesis by blast
qed

text \<open>C7: when every hour from 1 to 24 has the status \<^verbatim>\<open>no\<close>, the compressor yields
  exactly one interval, rendered \<^verbatim>\<open>0 - 24\<close>.\<close>

theorem all_day_period:
  assumes "\<not> nullish timeSlots"
    and "\<forall>h. 1 \<le> h \<and> h \<le> 24 \<longrightarrow> no_power timeSlots h"
  shows "noLightPeriods timeSlots = Inr [\<lparr>p_start = 0, p_end = 24\<rparr>]
         \<and> map period_text [\<lparr>p_start = 0, p_end = 24\<rparr>] = [ascii ''0 - 24'']
         \<and> schedules_loop formattedDate [(scheduleName, timeSlots)] []
             = Inr [line_date @ formattedDate @ line_schedule @ feederSuffix scheduleName
                    @ line_periods @ ascii ''0 - 24'']"
proof -
  from assms have "noLightPeriods timeSlots = Inr [\<lparr>p_start = 0, p_end = 24\<rparr>]"
    by (simp add: noLightPeriods_def hours_loop_step hours_loop_done open_periods_def)
  then show ?thesis
    by (simp add: period_text_examples schedule_line_def periodTexts_def)
qed

theorem all_day_period_witness:
  "\<not> nullish all_day_hours
   \<and> list_all (no_power all_day_hours) [1..24]
   \<and> noLightPeriods all_day_hours = Inr [\<lparr>p_start = 0, p_end = 24\<rparr>]
   \<and> map period_text [\<lparr>p_start = 0, p_end = 24\<rparr>] = [ascii ''0 - 24'']"
proof -
  have n: "\<not> nullish all_day_hours" by (simp only: all_day_hours_def nullish.simps not_False_eq_True)
  have a: "list_all (no_power all_day_hours) [1..24]"
    apply (simp only: all_day_hours_def hours_list list.pred_inject list.map)
    apply (simp add: no_power_def property_value_def int_to_string_def digits.simps ascii_def)
    done
  then have "\<forall>h. 1 \<le> h \<and> h \<le> 24 \<longrightarrow> no_power all_day_hours h"
    using each_hour by blast
  from all_day_period [OF n this] n a show ?thesis by blast
qed

text \<open>C10: two Hour-Status-Maps that agree on the keys \<^verbatim>\<open>1\<close> to \<^verbatim>\<open>24\<close> give the same
  intervals and the same output text; no other key is read.\<close>

theorem compress_reads_hour_keys:
  assumes "\<forall>h. 1 \<le> h \<and> h \<le> 24 \<longrightarrow> js_get a (int_to_string h) = js_get b (int_to_string h)"
  shows "noLightPeriods a = noLightPeriods b
         \<and> schedules_loop formattedDate [(scheduleName, a)] results
             = schedules_loop formattedDate [(scheduleName, b)] results"
  using noLightPeriods_cong [OF assms] by simp

theorem compress_reads_hour_keys_witness:
  "list_all (\<lambda>h. js_get nine_hours (int_to_string h) = js_get nine_hours_extra (int_to_string h))
     [1..24]
   \<and> nine_hours \<noteq> nine_hours_extra
   \<and> noLightPeriods nine_hours = noLightPeriods nine_hours_extra
   \<and> schedules_loop (ascii ''14.11.2023'') [(ascii ''GPV5.1'', nine_hours)] []
       = schedules_loop (ascii ''14.11.2023'') [(ascii ''GPV5.1'', nine_hours_extra)] []"
proof -
  have a: "list_all
      (\<lambda>h. js_get nine_hours (int_to_string h) = js_get nine_hours_extra (int_to_string h)) [1..24]"
    apply (simp only: hours_list list.pred_inject)
    apply (simp add: js_get_def nine_hours_def nine_hours_extra_def property_value_def
          int_to_string_def digits.simps ascii_def)
    done
  then have "\<forall>h. 1 \<le> h \<and> h \<le> 24 \<longrightarrow>
      js_get nine_hours (int_to_string h) = js_get nine_hours_extra (int_to_string h)"
    using each_hour by blast
  from compress_reads_hour_keys [OF this] a show ?thesis
    by (simp add: nine_hours_def nine_hours_extra_def)
qed


section \<open>The feeder filter\<close>



lemma map_of_absent: "k \<notin> fst ` set kvs \<Longrightarrow> map_of kvs k = None"
  by (simp add: map_of_eq_None_iff)









lemma timestamp_not_data: "is_timestamp k \<Longrightarrow> k \<noteq> ascii ''data''"
  by (auto simp: is_timestamp_def ascii_def is_digit_def)








lemma two_day_shape: "schedule_document two_day_document"
  by (simp add: two_day_document_def own_properties_ok_def key_before_def array_index_def
        is_timestamp_def is_digit_def decimal_value_def ascii_def)



lemma date_of_days_eq: "date_of_days 19675 = (14, 11, 2023)"
  by code_simp

lemma scenario_date: "locale_date example_host (ascii ''1700000000'') = ascii ''14.11.2023''"
  by (simp add: example_host_def utc_date_def is_timestamp_def ascii_def is_digit_def
        decimal_value_def date_of_days_eq two_digits_def int_to_string_def digits.simps)







section \<open>The fuel of JSON.parse\<close>

text \<open>A successful parse consumes at least one character, and it needs no more fuel than
  the number of characters it consumes.\<close>


lemma json_string_shorter: "json_string r = Some (s, t) \<Longrightarrow> length t < length r"
proof (induction r arbitrary: s t rule: json_string.induct)
  case 1
  then show ?case by simp
next
  case (2 c cs)
  show ?case
    using "2.prems" "2.IH"
    by (auto simp: cons_result_def split: if_splits list.splits option.splits prod.splits) fastforce+
qed

lemma json_fraction_shorter: "json_fraction cs = Some (l, t) \<Longrightarrow> length t \<le> length cs"
  using length_dropWhile_le [of is_digit "tl cs"]
  by (auto simp: json_fraction_def split: list.splits if_splits)

lemma json_exponent_shorter: "json_exponent cs = Some (l, t) \<Longrightarrow> length t \<le> length cs"
  using length_dropWhile_le [of is_digit "tl cs"] length_dropWhile_le [of is_digit "tl (tl cs)"]
  by (auto simp: json_exponent_def Let_def split: list.splits if_splits)

lemma json_number_shorter:
  assumes "json_number cs = Some (l, t)"
  shows "length t < length cs"
proof -
  define sign where "sign = (case cs of [] \<Rightarrow> [] | x # t \<Rightarrow> if x = 0x2D then [x] else [])"
  from assms obtain d r where dr: "drop (length sign) cs = d # r" and dig: "is_digit d"
    by (auto simp: json_number_def sign_def Let_def split: list.splits if_splits)
  define r1 where "r1 = (if d = 0x30 then r else dropWhile is_digit r)"
  from assms dr dig obtain fp r2 ep where
    f: "json_fraction r1 = Some (fp, r2)" and e: "json_exponent r2 = Some (ep, t)"
    unfolding json_number_def Let_def sign_def [symmetric] r1_def
    by (auto split: option.splits prod.splits if_splits)
  have "length r1 \<le> length r"
    using length_dropWhile_le [of is_digit r] by (simp add: r1_def)
  moreover from dr have "length r < length cs"
    by (metis drop_all impossible_Cons leI length_drop list.distinct(1) diff_le_self
        length_Cons Suc_le_lessD le_trans)
  ultimately show ?thesis
    using json_fraction_shorter [OF f] json_exponent_shorter [OF e] by simp
qed

lemma skip_length: "dropWhile P cs = c # r \<Longrightarrow> length r < length cs"
  using length_dropWhile_le [of P cs] by simp

lemma json_value_step:
  assumes IHm: "\<And>acc cs v rest. json_members H n acc cs = Some (v, rest) \<Longrightarrow>
      length rest < length cs
      \<and> (\<forall>m. length cs - length rest \<le> m \<longrightarrow> json_members H m acc cs = Some (v, rest))"
    and IHe: "\<And>acc cs v rest. json_elements H n acc cs = Some (v, rest) \<Longrightarrow>
      length rest < length cs
      \<and> (\<forall>m. length cs - length rest \<le> m \<longrightarrow> json_elements H m acc cs = Some (v, rest))"
    and res: "json_value H (Suc n) cs = Some (v, rest)"
  shows "length rest < length cs
      \<and> (\<forall>m. length cs - length rest \<le> m \<longrightarrow> json_value H m cs = Some (v, rest))"
proof -
  from res obtain c r where ws: "dropWhile json_space cs = c # r"
    by (auto split: list.splits)
  note len = skip_length [OF ws]
  consider (obj) "c = 0x7B" | (arr) "c \<noteq> 0x7B" "c = 0x5B" | (scalar) "c \<noteq> 0x7B" "c \<noteq> 0x5B"
    by blast
  then show ?thesis
  proof cases
    case obj
    with res ws obtain d r' where ws2: "dropWhile json_space r = d # r'"
      by (auto split: list.splits)
    note len2 = skip_length [OF ws2]
    show ?thesis
    proof (cases "d = 0x7D")
      case True
      with res ws obj ws2 have v: "v = JObj None []" "rest = r'" by auto
      have "json_value H m cs = Some (v, rest)" if "length cs - length rest \<le> m" for m
      proof (cases m)
        case 0
        with that len len2 v show ?thesis by simp
      next
        case (Suc m')
        with ws obj ws2 True v show ?thesis by simp
      qed
      with len len2 v show ?thesis by simp
    next
      case False
      with res ws obj ws2 have mem: "json_members H n [] (d # r') = Some (v, rest)" by simp
      from IHm [OF mem] have a: "length rest < length (d # r')"
        and b: "\<And>m. length (d # r') - length rest \<le> m \<Longrightarrow>
                  json_members H m [] (d # r') = Some (v, rest)"
        by blast+
      have "json_value H m cs = Some (v, rest)" if "length cs - length rest \<le> m" for m
      proof (cases m)
        case 0
        with that len len2 a show ?thesis by simp
      next
        case (Suc m')
        with that len len2 a have "length (d # r') - length rest \<le> m'" by simp
        from b [OF this] Suc ws obj ws2 False show ?thesis by simp
      qed
      with len len2 a show ?thesis by simp
    qed
  next
    case arr
    with res ws obtain d r' where ws2: "dropWhile json_space r = d # r'"
      by (auto split: list.splits)
    note len2 = skip_length [OF ws2]
    show ?thesis
    proof (cases "d = 0x5D")
      case True
      with res ws arr ws2 have v: "v = JArr []" "rest = r'" by auto
      have "json_value H m cs = Some (v, rest)" if "length cs - length rest \<le> m" for m
      proof (cases m)
        case 0
        with that len len2 v show ?thesis by simp
      next
        case (Suc m')
        with ws arr ws2 True v show ?thesis by simp
      qed
      with len len2 v show ?thesis by simp
    next
      case False
      with res ws arr ws2 have mem: "json_elements H n [] (d # r') = Some (v, rest)" by simp
      from IHe [OF mem] have a: "length rest < length (d # r')"
        and b: "\<And>m. length (d # r') - length rest \<le> m \<Longrightarrow>
                  json_elements H m [] (d # r') = Some (v, rest)"
        by blast+
      have "json_value H m cs = Some (v, rest)" if "length cs - length rest \<le> m" for m
      proof (cases m)
        case 0
        with that len len2 a show ?thesis by simp
      next
        case (Suc m')
        with that len len2 a have "length (d # r') - length rest \<le> m'" by simp
        from b [OF this] Suc ws arr ws2 False show ?thesis by simp
      qed
      with len len2 a show ?thesis by simp
    qed
  next
    case scalar
    have same: "json_value H (Suc m') cs = json_value H (Suc n) cs" for m'
      using ws scalar by simp
    have short: "length rest \<le> length r"
      using res ws scalar json_string_shorter [of r] json_number_shorter [of "c # r"]
      by (auto split: if_splits)
    have "json_value H m cs = Some (v, rest)" if "length cs - length rest \<le> m" for m
    proof (cases m)
      case 0
      with that len short show ?thesis by simp
    next
      case (Suc m')
      with same [of m'] res show ?thesis by simp
    qed
    with len short show ?thesis by simp
  qed
qed

lemma json_members_step:
  assumes IHv: "\<And>cs v rest. json_value H n cs = Some (v, rest) \<Longrightarrow>
      length rest < length cs
      \<and> (\<forall>m. length cs - length rest \<le> m \<longrightarrow> json_value H m cs = Some (v, rest))"
    and IHm: "\<And>acc cs v rest. json_members H n acc cs = Some (v, rest) \<Longrightarrow>
      length rest < length cs
      \<and> (\<forall>m. length cs - length rest \<le> m \<longrightarrow> json_members H m acc cs = Some (v, rest))"
    and res: "json_members H (Suc n) acc cs = Some (v, rest)"
  shows "length rest < length cs
      \<and> (\<forall>m. length cs - length rest \<le> m \<longrightarrow> json_members H m acc cs = Some (v, rest))"
proof -
  from res obtain q r where ws: "dropWhile json_space cs = q # r" and q: "q = 0x22"
    by (auto split: list.splits if_splits)
  from res ws q obtain key r1 where str: "json_string r = Some (key, r1)"
    by (auto split: option.splits)
  from res ws q str obtain colon r2 where ws1: "dropWhile json_space r1 = colon # r2"
    and colon: "colon = 0x3A"
    by (auto split: list.splits if_splits)
  from res ws q str ws1 colon obtain v1 r3 where val: "json_value H n r2 = Some (v1, r3)"
    by (auto split: option.splits)
  from res ws q str ws1 colon val obtain x r4 where ws3: "dropWhile json_space r3 = x # r4"
    by (auto split: list.splits)
  note len = skip_length [OF ws] json_string_shorter [OF str] skip_length [OF ws1]
    skip_length [OF ws3]
  from IHv [OF val] have av: "length r3 < length r2"
    and bv: "\<And>m. length r2 - length r3 \<le> m \<Longrightarrow> json_value H m r2 = Some (v1, r3)"
    by blast+
  show ?thesis
  proof (cases "x = 0x2C")
    case True
    with res ws q str ws1 colon val ws3
    have mem: "json_members H n (json_define key v1 acc) r4 = Some (v, rest)" by simp
    from IHm [OF mem] have a: "length rest < length r4"
      and b: "\<And>m. length r4 - length rest \<le> m \<Longrightarrow>
                json_members H m (json_define key v1 acc) r4 = Some (v, rest)"
      by blast+
    have "json_members H m acc cs = Some (v, rest)" if "length cs - length rest \<le> m" for m
    proof (cases m)
      case 0
      with that len av a show ?thesis by simp
    next
      case (Suc m')
      with that len av a have "length r2 - length r3 \<le> m'" "length r4 - length rest \<le> m'"
        by simp_all
      from bv [OF this(1)] b [OF this(2)] Suc ws q str ws1 colon ws3 True show ?thesis
        by simp
    qed
    with len av a show ?thesis by simp
  next
    case False
    with res ws q str ws1 colon val ws3
    have x: "x = 0x7D" and v: "v = JObj None (json_define key v1 acc)" "rest = r4"
      by (auto split: if_splits)
    have "json_members H m acc cs = Some (v, rest)" if "length cs - length rest \<le> m" for m
    proof (cases m)
      case 0
      with that len av v show ?thesis by simp
    next
      case (Suc m')
      with that len av v have "length r2 - length r3 \<le> m'" by simp
      from bv [OF this] Suc ws q str ws1 colon ws3 False x v show ?thesis by simp
    qed
    with len av v show ?thesis by simp
  qed
qed

lemma json_elements_step:
  assumes IHv: "\<And>cs v rest. json_value H n cs = Some (v, rest) \<Longrightarrow>
      length rest < length cs
      \<and> (\<forall>m. length cs - length rest \<le> m \<longrightarrow> json_value H m cs = Some (v, rest))"
    and IHe: "\<And>acc cs v rest. json_elements H n acc cs = Some (v, rest) \<Longrightarrow>
      length rest < length cs
      \<and> (\<forall>m. length cs - length rest \<le> m \<longrightarrow> json_elements H m acc cs = Some (v, rest))"
    and res: "json_elements H (Suc n) acc cs = Some (v, rest)"
  shows "length rest < length cs
      \<and> (\<forall>m. length cs - length rest \<le> m \<longrightarrow> json_elements H m acc cs = Some (v, rest))"
proof -
  from res obtain v1 r1 where val: "json_value H n cs = Some (v1, r1)"
    by (auto split: option.splits)
  from res val obtain x r2 where ws: "dropWhile json_space r1 = x # r2"
    by (auto split: list.splits)
  note len = skip_length [OF ws]
  from IHv [OF val] have av: "length r1 < length cs"
    and bv: "\<And>m. length cs - length r1 \<le> m \<Longrightarrow> json_value H m cs = Some (v1, r1)"
    by blast+
  show ?thesis
  proof (cases "x = 0x2C")
    case True
    with res val ws have el: "json_elements H n (acc @ [v1]) r2 = Some (v, rest)" by simp
    from IHe [OF el] have a: "length rest < length r2"
      and b: "\<And>m. length r2 - length rest \<le> m \<Longrightarrow>
                json_elements H m (acc @ [v1]) r2 = Some (v, rest)"
      by blast+
    have "json_elements H m acc cs = Some (v, rest)" if "length cs - length rest \<le> m" for m
    proof (cases m)
      case 0
      with that len av a show ?thesis by simp
    next
      case (Suc m')
      with that len av a have "length cs - length r1 \<le> m'" "length r2 - length rest \<le> m'"
        by simp_all
      from bv [OF this(1)] b [OF this(2)] Suc ws True show ?thesis by simp
    qed
    with len av a show ?thesis by simp
  next
    case False
    with res val ws have x: "x = 0x5D" and v: "v = JArr (acc @ [v1])" "rest = r2"
      by (auto split: if_splits)
    have "json_elements H m acc cs = Some (v, rest)" if "length cs - length rest \<le> m" for m
    proof (cases m)
      case 0
      with that len av v show ?thesis by simp
    next
      case (Suc m')
      with that len av v have "length cs - length r1 \<le> m'" by simp
      from bv [OF this] Suc ws False x v show ?thesis by simp
    qed
    with len av v show ?thesis by simp
  qed
qed

lemma json_fuel:
  "(\<forall>cs v rest. json_value H n cs = Some (v, rest) \<longrightarrow>
      length rest < length cs
      \<and> (\<forall>m. length cs - length rest \<le> m \<longrightarrow> json_value H m cs = Some (v, rest)))
   \<and> (\<forall>acc cs v rest. json_members H n acc cs = Some (v, rest) \<longrightarrow>
      length rest < length cs
      \<and> (\<forall>m. length cs - length rest \<le> m \<longrightarrow> json_members H m acc cs = Some (v, rest)))
   \<and> (\<forall>acc cs v rest. json_elements H n acc cs = Some (v, rest) \<longrightarrow>
      length rest < length cs
      \<and> (\<forall>m. length cs - length rest \<le> m \<longrightarrow> json_elements H m acc cs = Some (v, rest)))"
proof (induction n)
  case 0
  show ?case by simp
next
  case (Suc n)
  then have IHv: "\<And>cs v rest. json_value H n cs = Some (v, rest) \<Longrightarrow>
      length rest < length cs
      \<and> (\<forall>m. length cs - length rest \<le> m \<longrightarrow> json_value H m cs = Some (v, rest))"
    and IHm: "\<And>acc cs v rest. json_members H n acc cs = Some (v, rest) \<Longrightarrow>
      length rest < length cs
      \<and> (\<forall>m. length cs - length rest \<le> m \<longrightarrow> json_members H m acc cs = Some (v, rest))"
    and IHe: "\<And>acc cs v rest. json_elements H n acc cs = Some (v, rest) \<Longrightarrow>
      length rest < length cs
      \<and> (\<forall>m. length cs - length rest \<le> m \<longrightarrow> json_elements H m acc cs = Some (v, rest))"
    by blast+
  show ?case
    using json_value_step [OF IHm IHe] json_members_step [OF IHv IHm]
      json_elements_step [OF IHv IHe]
    by blast
qed

text \<open>The fuel that \<open>JSON_parse\<close> gives is enough: what the parser finds with any fuel, it
  finds with the fuel of \<open>JSON_parse\<close>.\<close>

lemma JSON_parse_fuel:
  assumes "json_value H n s = Some (v, rest)"
  shows "json_value H (Suc (length s)) s = Some (v, rest)"
proof -
  from json_fuel [of H n] assms
  have "\<forall>m. length s - length rest \<le> m \<longrightarrow> json_value H m s = Some (v, rest)" by blast
  then have "length s - length rest \<le> Suc (length s) \<longrightarrow>
      json_value H (Suc (length s)) s = Some (v, rest)"
    by (rule spec)
  moreover have "length s - length rest \<le> Suc (length s)" by simp
  ultimately show ?thesis by (rule mp)
qed

section \<open>The extractor and the handler\<close>

text \<open>The scenario page, stage by stage: the match of the regular expression, the two
  normalizations, \<^verbatim>\<open>JSON.parse\<close>, the filter and the compressor.\<close>

lemma scenario_match: "regex_match scenario_script = Some (drop 22 scenario_script)"
  by (simp add: scenario_script_def ascii_def match_here_def marker_def is_space_def
        lookahead_def)

lemma scenario_quote:
  "quote_keys False (double_quotes (drop 22 scenario_script))
     = double_quotes (drop 22 scenario_script)"
  by (simp add: scenario_script_def ascii_def double_quotes_def quote_keys.simps is_word_def
        is_space_def)

lemma scenario_parse:
  "JSON_parse H (double_quotes (drop 22 scenario_script)) = Inr scenario_document"
  by (simp add: scenario_script_def scenario_document_def scenario_hours_def ascii_def
        double_quotes_def JSON_parse_def json_space_def json_define_def define_own_def
        array_index_def is_digit_def decimal_value_def cons_result_def json_escape_def)

lemma scenario_includes: "scenario_script \<noteq> [] \<and> str_includes marker scenario_script"
  by (simp add: scenario_script_def ascii_def marker_def)

lemma scenario_fetch: "fetchShutdowns H (Inr scenario_response) = ([], Inr scenario_document)"
  by (simp add: fetchShutdowns_def scenario_response_def scenario_includes scenario_match
        scenario_quote scenario_parse)

lemma scenario_filter:
  assumes "ascii ''GPV5.1'' \<in> set S"
  shows "filterGPVKeys scenario_document S = Inr scenario_document"
  using assms
  by (simp add: filterGPVKeys_def scenario_document_def call_hasOwnProperty_def ascii_def
        property_value_def empty_object_def object_value_def obj_set_def proto_key_def
        define_own_def array_index_def is_digit_def decimal_value_def)

lemma scenario_periods: "noLightPeriods scenario_hours = Inr [\<lparr>p_start = 8, p_end = 10\<rparr>]"
  by (simp add: noLightPeriods_def scenario_hours_def hours_loop.simps js_get_def
        property_value_def int_to_string_def digits.simps ascii_def)

lemma scenario_compress: "parseLightSchedule H scenario_document = Inr (scenario_line H)"
  by (simp add: parseLightSchedule_def scenario_document_def scenario_periods schedule_line_def
        suffix_example periodTexts_def period_text_examples scenario_line_def)

lemma scenario_line_short: "length (scenario_line example_host) \<le> MAX_MSG_LEN"
  unfolding scenario_line_def scenario_date
  by (simp add: line_date_def line_schedule_def line_periods_def ascii_def MAX_MSG_LEN_def)

text \<open>The same stages for the page whose assigned object holds the schedule under
  \<^verbatim>\<open>data\<close>.\<close>

lemma wrapped_match: "regex_match wrapped_script = Some (drop 22 wrapped_script)"
  by (simp add: wrapped_script_def ascii_def match_here_def marker_def is_space_def
        lookahead_def)

lemma wrapped_quote:
  "quote_keys False (double_quotes (drop 22 wrapped_script))
     = double_quotes (drop 22 wrapped_script)"
  by (simp add: wrapped_script_def ascii_def double_quotes_def quote_keys.simps is_word_def
        is_space_def)

lemma wrapped_parse:
  "JSON_parse H (double_quotes (drop 22 wrapped_script))
     = Inr (JObj None [(ascii ''data'', scenario_document)])"
  by (simp add: wrapped_script_def scenario_document_def scenario_hours_def ascii_def
        double_quotes_def JSON_parse_def json_space_def json_define_def define_own_def
        array_index_def is_digit_def decimal_value_def cons_result_def json_escape_def)

lemma wrapped_includes: "wrapped_script \<noteq> [] \<and> str_includes marker wrapped_script"
  by (simp add: wrapped_script_def ascii_def marker_def)

lemma wrapped_fetch:
  "fetchShutdowns H (Inr wrapped_response)
     = ([], Inr (JObj None [(ascii ''data'', scenario_document)]))"
  by (simp add: fetchShutdowns_def wrapped_response_def wrapped_includes wrapped_match
        wrapped_quote wrapped_parse)

lemma wrapped_properties:
  "property_value (JObj None [(ascii ''data'', scenario_document)]) (ascii ''data'')
     = scenario_document"
  "property_value (JObj None [(ascii ''data'', scenario_document)]) (ascii ''status'')
     = JUndefined"
  by (simp_all add: property_value_def) (simp add: ascii_def)

lemma scenario_truthy: "truthy H scenario_document"
  by (simp add: scenario_document_def)

lemma wrapped_try_block:
  "try_block H (Inr wrapped_response)
     = (ConsoleLogValue scenario_document # send_text (scenario_line H), None)"
proof -
  have "report H scenario_document
          = (ConsoleLogValue scenario_document # send_text (scenario_line H), None)"
    by (simp add: report_def scenario_filter scenario_compress)
  then show ?thesis
    by (simp add: try_block_def wrapped_fetch optional_data_def wrapped_properties
          scenario_truthy)
qed

text \<open>A ScheduleDocument has no property \<^verbatim>\<open>data\<close>.\<close>

lemma document_has_no_data:
  assumes "schedule_document d"
  shows "optional_data d = JUndefined"
proof -
  from assms obtain dates where d: "d = JObj None dates"
    and shape: "list_all (\<lambda>(k, f). is_timestamp k \<and> feeder_mapping f) dates"
    by (cases d rule: schedule_document.cases) auto
  from shape have "ascii ''data'' \<notin> fst ` set dates"
    using timestamp_not_data by (fastforce simp: list_all_iff)
  then have "map_of dates (ascii ''data'') = None" by (rule map_of_absent)
  with d show ?thesis by (simp add: optional_data_def property_value_def)
qed

lemma scenario_shape: "schedule_document scenario_document"
  by (simp add: scenario_document_def scenario_hours_def own_properties_ok_def key_before_def
        array_index_def is_timestamp_def is_digit_def decimal_value_def ascii_def)

lemma example_user_names:
  "or_else (username example_user) (user_id example_user) = ascii ''reader''"
  "or_else (first_name example_user) msg_user = msg_user"
  by (simp_all add: example_user_def or_else_def ascii_def)

text \<open>C1, as the code has it: for the page of the scenario, extract, then filter with a
  keep set that holds \<^verbatim>\<open>GPV5.1\<close>, then compress, composed directly, give exactly one line,
  with the interval text \<^verbatim>\<open>8 - 10\<close> and the date the host renders for the timestamp
  1700000000. The handler of the start command sends that line when the assigned
  object holds the schedule under a property \<^verbatim>\<open>data\<close>.\<close>

theorem scenario_report:
  assumes "ascii ''GPV5.1'' \<in> set keysToKeep"
  shows "fetchShutdowns H (Inr scenario_response) = ([], Inr scenario_document)
         \<and> filterGPVKeys scenario_document keysToKeep = Inr scenario_document
         \<and> parseLightSchedule H scenario_document
             = Inr (line_date @ locale_date H (ascii ''1700000000'') @ line_schedule
                    @ ascii ''5.1'' @ line_periods @ ascii ''8 - 10'')
         \<and> start_handler H u (Inr wrapped_response)
             = [ConsoleLog (msg_start_from @ or_else (username u) (user_id u)),
                Reply (msg_greeting @ or_else (first_name u) msg_user @ msg_requesting),
                ConsoleLogValue scenario_document]
               @ send_text (line_date @ locale_date H (ascii ''1700000000'') @ line_schedule
                            @ ascii ''5.1'' @ line_periods @ ascii ''8 - 10'')"
  using scenario_fetch [of H] scenario_filter [OF assms] scenario_compress [of H]
    wrapped_try_block [of H]
  by (simp add: start_handler_def scenario_line_def)

theorem scenario_report_witness:
  "ascii ''GPV5.1'' \<in> set [ascii ''GPV5.1'', ascii ''GPV3.2'']
   \<and> fetchShutdowns example_host (Inr scenario_response) = ([], Inr scenario_document)
   \<and> filterGPVKeys (scenario_document :: unit js) [ascii ''GPV5.1'', ascii ''GPV3.2'']
       = Inr scenario_document
   \<and> parseLightSchedule example_host scenario_document
       = Inr (line_date @ ascii ''14.11.2023'' @ line_schedule @ ascii ''5.1'' @ line_periods
              @ ascii ''8 - 10'')
   \<and> start_handler example_host example_user (Inr wrapped_response)
       = [ConsoleLog (msg_start_from @ ascii ''reader''),
          Reply (msg_greeting @ msg_user @ msg_requesting),
          ConsoleLogValue scenario_document,
          Reply (line_date @ ascii ''14.11.2023'' @ line_schedule @ ascii ''5.1'' @ line_periods
                 @ ascii ''8 - 10'')]"
proof -
  have m: "ascii ''GPV5.1'' \<in> set [ascii ''GPV5.1'', ascii ''GPV3.2'']" by simp
  have "send_text (scenario_line example_host) = [Reply (scenario_line example_host)]"
    using scenario_line_short by (simp add: send_text_def)
  then have s: "send_text (line_date @ ascii ''14.11.2023'' @ line_schedule @ ascii ''5.1''
                  @ line_periods @ ascii ''8 - 10'')
        = [Reply (line_date @ ascii ''14.11.2023'' @ line_schedule @ ascii ''5.1''
                  @ line_periods @ ascii ''8 - 10'')]"
    by (simp add: scenario_line_def scenario_date)
  from scenario_report [OF m, of example_host example_user]
  show ?thesis by (simp add: scenario_date example_user_names s)
qed

text \<open>C1 fails for the handler: on the page of the scenario it replies with the
  empty-response message, and no report line is sent.\<close>

theorem scenario_handler_reply:
  "start_handler example_host example_user (Inr scenario_response)
     = [ConsoleLog (msg_start_from @ ascii ''reader''),
        Reply (msg_greeting @ msg_user @ msg_requesting),
        Reply msg_empty_response]"
  by (simp add: start_handler_def try_block_def scenario_fetch
        document_has_no_data [OF scenario_shape] example_user_names)

text \<open>C2: when the extractor returns a document of the ScheduleDocument shape, the
  handler replies with the empty-response message and returns: nothing is logged,
  filtered, compressed or sent after it.\<close>

theorem handler_empty_on_schedule_document:
  assumes "fetchShutdowns H fetched = (logs, Inr d)" and "schedule_document d"
  shows "try_block H fetched = (logs @ [Reply msg_empty_response], None)
         \<and> start_handler H u fetched
             = [ConsoleLog (msg_start_from @ or_else (username u) (user_id u)),
                Reply (msg_greeting @ or_else (first_name u) msg_user @ msg_requesting)]
               @ logs @ [Reply msg_empty_response]"
  using assms by (simp add: try_block_def start_handler_def document_has_no_data)

lemma two_day_match:
  "regex_match two_day_script
     = Some (ascii ''{'1700086400': {'GPV3.2': {'1':'no'}}, '1700000000': {'GPV5.1': {'24':'no'}}}'')"
  by (simp add: two_day_script_def ascii_def match_here_def marker_def is_space_def
        lookahead_def)

lemma two_day_quote:
  "quote_keys False (double_quotes
      (ascii ''{'1700086400': {'GPV3.2': {'1':'no'}}, '1700000000': {'GPV5.1': {'24':'no'}}}''))
     = double_quotes
        (ascii ''{'1700086400': {'GPV3.2': {'1':'no'}}, '1700000000': {'GPV5.1': {'24':'no'}}}'')"
  by (simp add: ascii_def double_quotes_def quote_keys.simps is_word_def is_space_def)

lemma two_day_parse:
  "JSON_parse H (double_quotes
      (ascii ''{'1700086400': {'GPV3.2': {'1':'no'}}, '1700000000': {'GPV5.1': {'24':'no'}}}''))
     = Inr two_day_document"
  by (simp add: two_day_document_def ascii_def double_quotes_def JSON_parse_def json_space_def
        json_define_def define_own_def array_index_def is_digit_def decimal_value_def
        cons_result_def json_escape_def)

lemma two_day_fetch: "fetchShutdowns H (Inr two_day_response) = ([], Inr two_day_document)"
proof -
  have "\<not> str_includes marker (ascii ''var page = 1;'')"
    by (simp add: ascii_def marker_def)
  moreover have "two_day_script \<noteq> [] \<and> str_includes marker two_day_script"
    by (simp add: two_day_script_def ascii_def marker_def)
  ultimately show ?thesis
    by (simp add: fetchShutdowns_def two_day_response_def two_day_match two_day_quote
          two_day_parse)
qed

theorem handler_empty_on_schedule_document_witness:
  "fetchShutdowns example_host (Inr two_day_response) = ([], Inr two_day_document)
   \<and> schedule_document (two_day_document :: unit js)
   \<and> try_block example_host (Inr two_day_response) = ([Reply msg_empty_response], None)
   \<and> start_handler example_host example_user (Inr two_day_response)
       = [ConsoleLog (msg_start_from @ ascii ''reader''),
          Reply (msg_greeting @ msg_user @ msg_requesting),
          Reply msg_empty_response]"
  using handler_empty_on_schedule_document [OF two_day_fetch two_day_shape, of example_host
      example_user] two_day_fetch [of example_host] two_day_shape
  by (simp add: example_user_names)

lemma scripts_loop_no_marker:
  "\<forall>txt \<in> set scripts. \<not> str_includes marker txt \<Longrightarrow> scripts_loop H scripts = None"
  by (induction scripts) auto

text \<open>C9: when the page was fetched and no script holds the marker, the extractor logs
  that the assignment was not found and returns \<^verbatim>\<open>undefined\<close>; it does not throw, and the
  handler ends with the empty-response message, not with an error.\<close>

theorem fetch_not_found:
  assumes "resp_ok resp" and "\<forall>txt \<in> set (resp_scripts resp). \<not> str_includes marker txt"
  shows "fetchShutdowns H (Inr resp) = ([ConsoleLog msg_not_found], Inr JUndefined)
         \<and> start_handler H u (Inr resp)
             = [ConsoleLog (msg_start_from @ or_else (username u) (user_id u)),
                Reply (msg_greeting @ or_else (first_name u) msg_user @ msg_requesting),
                ConsoleLog msg_not_found,
                Reply msg_empty_response]"
  using assms
  by (simp add: fetchShutdowns_def scripts_loop_no_marker start_handler_def try_block_def
        optional_data_def)

theorem fetch_not_found_witness:
  "resp_ok plain_response
   \<and> list_all (\<lambda>txt. \<not> str_includes marker txt) (resp_scripts plain_response)
   \<and> fetchShutdowns example_host (Inr plain_response)
       = ([ConsoleLog msg_not_found], Inr JUndefined)
   \<and> start_handler example_host example_user (Inr plain_response)
       = [ConsoleLog (msg_start_from @ ascii ''reader''),
          Reply (msg_greeting @ msg_user @ msg_requesting),
          ConsoleLog msg_not_found,
          Reply msg_empty_response]"
proof -
  have a: "list_all (\<lambda>txt. \<not> str_includes marker txt) (resp_scripts plain_response)"
    by (simp add: plain_response_def marker_def ascii_def)
  have o: "resp_ok plain_response" by (simp add: plain_response_def)
  from a have "\<forall>txt \<in> set (resp_scripts plain_response). \<not> str_includes marker txt"
    by (simp only: list_all_iff)
  from fetch_not_found [OF o this, of example_host example_user] o a show ?thesis
    by (simp add: example_user_names)
qed

section \<open>The feeder suffix\<close>

lemma replace_first_prefix:
  "is_prefix pat s \<Longrightarrow> replace_first pat rep s = rep @ drop (length pat) s"
  by (cases s; cases pat) auto

lemma replace_first_absent: "\<not> str_includes pat s \<Longrightarrow> replace_first pat rep s = s"
  by (induction s) auto

lemma is_prefix_append: "is_prefix pat s \<Longrightarrow> s = pat @ drop (length pat) s"
  by (induction pat s rule: is_prefix.induct) auto

lemma replace_first_occurrence:
  "str_includes pat s \<Longrightarrow>
   \<exists>a b. s = a @ pat @ b \<and> replace_first pat rep s = a @ rep @ b
         \<and> (\<forall>i < length a. \<not> is_prefix pat (drop i s))"
proof (induction s)
  case Nil
  then show ?case by simp
next
  case (Cons c cs)
  show ?case
  proof (cases "is_prefix pat (c # cs)")
    case True
    then have "c # cs = [] @ pat @ drop (length pat) (c # cs)"
      using is_prefix_append by fastforce
    moreover from True
    have "replace_first pat rep (c # cs) = [] @ rep @ drop (length pat) (c # cs)"
      by simp
    ultimately show ?thesis by (metis length_0_conv not_less_zero list.size(3))
  next
    case False
    with Cons.prems have "str_includes pat cs" by simp
    from Cons.IH [OF this] obtain a b where
      ab: "cs = a @ pat @ b" "replace_first pat rep cs = a @ rep @ b"
      "\<forall>i < length a. \<not> is_prefix pat (drop i cs)"
      by blast
    have "\<not> is_prefix pat (drop i (c # cs))" if "i < length (c # a)" for i
      using that False ab(3) by (cases i) auto
    with ab False
    have "c # cs = (c # a) @ pat @ b \<and> replace_first pat rep (c # cs) = (c # a) @ rep @ b
         \<and> (\<forall>i < length (c # a). \<not> is_prefix pat (drop i (c # cs)))"
      by simp
    then show ?thesis by blast
  qed
qed

text \<open>C8, as the code has it: the feeder suffix is the identifier with the first
  occurrence of \<^verbatim>\<open>GPV\<close> removed, wherever it stands: the prefix when the identifier
  starts with it, and nothing when \<^verbatim>\<open>GPV\<close> does not occur in the identifier.\<close>

theorem suffix_first_occurrence:
  "(is_prefix (ascii ''GPV'') scheduleName \<longrightarrow> feederSuffix scheduleName = drop 3 scheduleName)
   \<and> (\<not> str_includes (ascii ''GPV'') scheduleName \<longrightarrow> feederSuffix scheduleName = scheduleName)
   \<and> (str_includes (ascii ''GPV'') scheduleName \<longrightarrow>
        (\<exists>a b. scheduleName = a @ ascii ''GPV'' @ b \<and> feederSuffix scheduleName = a @ b
               \<and> (\<forall>i < length a. \<not> is_prefix (ascii ''GPV'') (drop i scheduleName))))"
proof (intro conjI impI)
  assume "is_prefix (ascii ''GPV'') scheduleName"
  then show "feederSuffix scheduleName = drop 3 scheduleName"
    by (simp add: feederSuffix_def replace_first_prefix) (simp add: ascii_def numeral_3_eq_3)
next
  assume "\<not> str_includes (ascii ''GPV'') scheduleName"
  then show "feederSuffix scheduleName = scheduleName"
    by (simp add: feederSuffix_def replace_first_absent)
next
  assume "str_includes (ascii ''GPV'') scheduleName"
  from replace_first_occurrence [OF this, of "[]"]
  show "\<exists>a b. scheduleName = a @ ascii ''GPV'' @ b \<and> feederSuffix scheduleName = a @ b
               \<and> (\<forall>i < length a. \<not> is_prefix (ascii ''GPV'') (drop i scheduleName))"
    by (simp add: feederSuffix_def)
qed

theorem suffix_first_occurrence_witness:
  "is_prefix (ascii ''GPV'') (ascii ''GPV5.1'') \<and> feederSuffix (ascii ''GPV5.1'') = ascii ''5.1''
   \<and> \<not> str_includes (ascii ''GPV'') (ascii ''5.1'') \<and> feederSuffix (ascii ''5.1'') = ascii ''5.1''"
  using suffix_first_occurrence [of "ascii ''GPV5.1''"] suffix_first_occurrence [of "ascii ''5.1''"]
  by (simp add: ascii_def)

text \<open>C8 fails for an identifier that holds \<^verbatim>\<open>GPV\<close> after its start: the prefix is absent
  and the identifier is changed.\<close>

theorem suffix_inner_occurrence:
  "\<not> is_prefix (ascii ''GPV'') (ascii ''AGPV5'') \<and> feederSuffix (ascii ''AGPV5'') = ascii ''A5''
   \<and> feederSuffix (ascii ''AGPV5'') \<noteq> ascii ''AGPV5''"
  by (simp add: feederSuffix_def ascii_def)

end
